theory Spec2Isabelle
  imports Complex_Main "HOL-Library.AList"
begin

section \<open>Python values, exceptions and outcomes\<close>

text \<open>
  The three modules of the repository (\<^verbatim>\<open>pmoves_metrics.py\<close>, \<^verbatim>\<open>pmoves_nats_bridge.py\<close>,
  \<^verbatim>\<open>pmoves_chit_bridge.py\<close>) are embedded as functions over explicit module state. Everything
  outside the repository (the network, the file system, the broker client, the clock) is a
  parameter: a record of oracles that say what the outside does when it is asked, each oracle
  seeing the list of effects performed so far. The effects a function performs are appended to
  the trace it returns.

  An exception is a value. Only subclasses of \<^verbatim>\<open>Exception\<close> are modelled (a
  \<^verbatim>\<open>KeyboardInterrupt\<close> is not a failure of a dependency), so \<^verbatim>\<open>except Exception\<close> catches
  every value of the type.
\<close>

datatype exn =
    URLError | HTTPError | OSError | TimeoutError | FileNotFoundError
  | JSONDecodeError | UnicodeDecodeError | ValueError
  | AttributeError | TypeError | ImportError | HTTPException | RuntimeError

text \<open>The class hierarchy, as far as the \<^verbatim>\<open>except\<close> clauses of the source look at it:
  \<^verbatim>\<open>HTTPError < URLError < OSError\<close>, \<^verbatim>\<open>TimeoutError < OSError\<close>,
  \<^verbatim>\<open>FileNotFoundError < OSError\<close>, \<^verbatim>\<open>JSONDecodeError < ValueError\<close>.\<close>

fun is_OSError :: "exn \<Rightarrow> bool" where
  "is_OSError URLError = True"
| "is_OSError HTTPError = True"
| "is_OSError OSError = True"
| "is_OSError TimeoutError = True"
| "is_OSError FileNotFoundError = True"
| "is_OSError _ = False"

text \<open>A finite float is modelled by the rational number it denotes.\<close>

datatype py =
    PNone | PBool bool | PInt int | PFloat rat | PStr string
  | PList "py list" | PDict "(string \<times> py) list"

text \<open>Python's truth value of an object (\<^verbatim>\<open>if x:\<close>, \<^verbatim>\<open>not x\<close>).\<close>

fun truthy :: "py \<Rightarrow> bool" where
  "truthy PNone = False"
| "truthy (PBool b) = b"
| "truthy (PInt i) = (i \<noteq> 0)"
| "truthy (PFloat r) = (r \<noteq> 0)"
| "truthy (PStr s) = (s \<noteq> [])"
| "truthy (PList xs) = (xs \<noteq> [])"
| "truthy (PDict kvs) = (kvs \<noteq> [])"

text \<open>\<^verbatim>\<open>str(n)\<close> for a natural number: its decimal digits.\<close>

definition digit_char :: "nat \<Rightarrow> char" where
  "digit_char d = ''0123456789'' ! d"

fun str_nat :: "nat \<Rightarrow> string" where
  "str_nat n = (if n < 10 then [digit_char n] else str_nat (n div 10) @ [digit_char (n mod 10)])"

declare str_nat.simps [simp del]

definition str_int :: "int \<Rightarrow> string" where
  "str_int i = (if i < 0 then CHR ''-'' # str_nat (nat (- i)) else str_nat (nat i))"

section \<open>The metrics module\<close>

subsection \<open>Registry\<close>

text \<open>
  The five metric families of \<^verbatim>\<open>pmoves_metrics.py\<close>. A labelled family maps a label tuple to
  the value of its child; a child exists from the first \<^verbatim>\<open>.labels(...)\<close> call on, starting at 0.
  \<^verbatim>\<open>HAS_PROM\<close> is the module's \<^verbatim>\<open>_HAS_PROM\<close>, fixed at import; \<^verbatim>\<open>server\<close> is its global
  \<^verbatim>\<open>_server\<close>.
\<close>

datatype metrics_event = Bind int | Thread_start int | Serve_forever int

record metrics_module =
  HAS_PROM :: bool
  THROUGHPUT_TPS :: "(string \<times> string \<times> string) \<rightharpoonup> rat"
  SWEEPS_TOTAL :: "string \<rightharpoonup> rat"
  ERRORS_TOTAL :: "string \<rightharpoonup> rat"
  LAST_SWEEP_TS :: rat
  BEST_THROUGHPUT :: "(string \<times> string) \<rightharpoonup> rat"
  server :: "int option"
  metrics_trace :: "metrics_event list"

text \<open>\<^verbatim>\<open>family.labels(l)\<close>: the child is created on first use.\<close>

definition labels :: "('l \<rightharpoonup> rat) \<Rightarrow> 'l \<Rightarrow> ('l \<rightharpoonup> rat)" where
  "labels fam l = (case fam l of None \<Rightarrow> fam(l \<mapsto> 0) | Some v \<Rightarrow> fam)"

text \<open>The value a scrape shows for a child; a child that was never created shows nothing and
  counts as 0.\<close>

definition sample :: "('l \<rightharpoonup> rat) \<Rightarrow> 'l \<Rightarrow> rat" where
  "sample fam l = (case fam l of None \<Rightarrow> 0 | Some v \<Rightarrow> v)"

text \<open>\<^verbatim>\<open>Gauge.set(v)\<close> on the child \<open>l\<close>.\<close>

definition gauge_set :: "('l \<rightharpoonup> rat) \<Rightarrow> 'l \<Rightarrow> rat \<Rightarrow> ('l \<rightharpoonup> rat)" where
  "gauge_set fam l v = fam(l \<mapsto> v)"

text \<open>\<^verbatim>\<open>Counter.inc(amount)\<close> on the child \<open>l\<close>: the client library raises \<^verbatim>\<open>ValueError\<close> on
  a negative amount.\<close>

definition counter_inc :: "('l \<rightharpoonup> rat) \<Rightarrow> 'l \<Rightarrow> rat \<Rightarrow> exn + ('l \<rightharpoonup> rat)" where
  "counter_inc fam l amount =
     (if amount < 0 then Inl ValueError else Inr (fam(l \<mapsto> sample fam l + amount)))"

subsection \<open>update_cell and update_sweep\<close>

text \<open>The result of a call that returns nothing: \<open>None\<close> when it returns, \<open>Some e\<close> when it
  raises \<open>e\<close>.\<close>

definition update_cell ::
  "metrics_module \<Rightarrow> string \<Rightarrow> string \<Rightarrow> string \<Rightarrow> rat \<Rightarrow> int \<Rightarrow> exn option \<times> metrics_module"
where
  "update_cell M model sweep_type config_label throughput_tps errors =
     (if \<not> HAS_PROM M then (None, M)
      else
        let l = (model, sweep_type, config_label);
            M1 = M\<lparr>THROUGHPUT_TPS := gauge_set (labels (THROUGHPUT_TPS M) l) l throughput_tps\<rparr>
        in if errors \<noteq> 0 then
             (let fam = labels (ERRORS_TOTAL M1) sweep_type
              in case counter_inc fam sweep_type (of_int errors) of
                   Inl e \<Rightarrow> (Some e, M1\<lparr>ERRORS_TOTAL := fam\<rparr>)
                 | Inr fam' \<Rightarrow> (None, M1\<lparr>ERRORS_TOTAL := fam'\<rparr>))
           else (None, M1))"

text \<open>\<open>now\<close> is what \<^verbatim>\<open>time.time()\<close> returns.\<close>

definition update_sweep ::
  "rat \<Rightarrow> metrics_module \<Rightarrow> string \<Rightarrow> string \<Rightarrow> rat \<Rightarrow> exn option \<times> metrics_module"
where
  "update_sweep now M model sweep_type best_throughput =
     (if \<not> HAS_PROM M then (None, M)
      else
        (case counter_inc (labels (SWEEPS_TOTAL M) sweep_type) sweep_type 1 of
           Inl e \<Rightarrow> (Some e, M\<lparr>SWEEPS_TOTAL := labels (SWEEPS_TOTAL M) sweep_type\<rparr>)
         | Inr fam' \<Rightarrow>
             (None, M\<lparr>SWEEPS_TOTAL := fam', LAST_SWEEP_TS := now,
                       BEST_THROUGHPUT :=
                         gauge_set (labels (BEST_THROUGHPUT M) (model, sweep_type))
                           (model, sweep_type) best_throughput\<rparr>)))"

subsection \<open>The HTTP handler\<close>

text \<open>
  A response written by the handler: status, headers in the order sent, body.
  \<open>Error_Response c\<close> is what \<^verbatim>\<open>send_error(c)\<close> of the standard library writes (status \<open>c\<close>
  and its error page). The two names imported from the metrics client are parameters:
  \<open>generate_latest\<close> renders the registry, \<open>CONTENT_TYPE_LATEST\<close> is its content type.
\<close>

datatype http_response =
    Response nat "(string \<times> string) list" string
  | Error_Response nat

record prom_client =
  generate_latest :: "metrics_module \<Rightarrow> string"
  CONTENT_TYPE_LATEST :: string

definition do_GET :: "prom_client \<Rightarrow> metrics_module \<Rightarrow> string \<Rightarrow> http_response" where
  "do_GET lib M path =
     (if path = ''/healthz'' then
        (let body = ''{\"ok\":true}''
         in Response 200
              [(''Content-Type'', ''application/json''),
               (''Content-Length'', str_nat (length body))] body)
      else if path = ''/metrics'' \<and> HAS_PROM M then
        (let body = generate_latest lib M
         in Response 200
              [(''Content-Type'', CONTENT_TYPE_LATEST lib),
               (''Content-Length'', str_nat (length body))] body)
      else Error_Response 404)"

subsection \<open>start_server\<close>

text \<open>
  How a call ends: it returns, it raises, or it never returns (\<^verbatim>\<open>serve_forever()\<close> on the
  calling thread). \<open>bind\<close> is the outside's answer to \<^verbatim>\<open>HTTPServer(("0.0.0.0", port), _Handler)\<close>:
  \<open>None\<close> when the listener is bound, \<open>Some e\<close> when the constructor raises \<open>e\<close>.
  A bound server is represented by its port.
\<close>

datatype outcome = Returns | Raises exn | Blocks

definition start_server ::
  "(metrics_event list \<Rightarrow> int \<Rightarrow> exn option) \<Rightarrow> metrics_module \<Rightarrow> int \<Rightarrow> bool
     \<Rightarrow> outcome \<times> metrics_module"
where
  "start_server bind M port background =
     (if server M \<noteq> None then (Returns, M)
      else
        (case bind (metrics_trace M) port of
           Some e \<Rightarrow> (Raises e, M\<lparr>metrics_trace := metrics_trace M @ [Bind port]\<rparr>)
         | None \<Rightarrow>
             (let M1 = M\<lparr>server := Some port, metrics_trace := metrics_trace M @ [Bind port]\<rparr>
              in if background
                 then (Returns, M1\<lparr>metrics_trace := metrics_trace M1 @ [Thread_start port]\<rparr>)
                 else (Blocks, M1\<lparr>metrics_trace := metrics_trace M1 @ [Serve_forever port]\<rparr>))))"

section \<open>JSON text\<close>

text \<open>
  The model of the standard library's \<^verbatim>\<open>json.dumps\<close> (default options: \<^verbatim>\<open>ensure_ascii\<close>,
  separators \<^verbatim>\<open>", "\<close> and \<^verbatim>\<open>": "\<close>) and \<^verbatim>\<open>json.loads\<close> on the values of type \<open>py\<close>:
  \<^verbatim>\<open>None\<close>, booleans, integers, finite floats, strings, lists, and dictionaries with string
  keys (an association list in insertion order). A character is a code point below 256.
  The two conversions between floats and text belong to the interpreter and are parameters:
  \<open>float_repr\<close> is \<^verbatim>\<open>float.__repr__\<close>, \<open>float_of_str\<close> is \<^verbatim>\<open>float(...)\<close> on a number token.
\<close>

definition bslash :: char where
  "bslash = CHR 0x5C"

definition dquote :: char where
  "dquote = CHR 0x22"

definition hex_digit :: "nat \<Rightarrow> char" where
  "hex_digit d = ''0123456789abcdef'' ! d"

text \<open>One character of a string literal, as \<^verbatim>\<open>encode_basestring_ascii\<close> writes it: the
  short escapes, the character itself when it is printable ASCII, a \<^verbatim>\<open>\u00XX\<close> escape
  otherwise.\<close>

definition escape_char :: "char \<Rightarrow> string" where
  "escape_char c =
     (if c = bslash then [bslash, bslash]
      else if c = dquote then [bslash, dquote]
      else if c = CHR 0x08 then [bslash, CHR ''b'']
      else if c = CHR 0x0C then [bslash, CHR ''f'']
      else if c = CHR 0x0A then [bslash, CHR ''n'']
      else if c = CHR 0x0D then [bslash, CHR ''r'']
      else if c = CHR 0x09 then [bslash, CHR ''t'']
      else if 32 \<le> (of_char c :: nat) \<and> (of_char c :: nat) \<le> 126 then [c]
      else [bslash, CHR ''u'', CHR ''0'', CHR ''0'',
            hex_digit ((of_char c :: nat) div 16), hex_digit ((of_char c :: nat) mod 16)])"

definition encode_basestring_ascii :: "string \<Rightarrow> string" where
  "encode_basestring_ascii s = dquote # concat (map escape_char s) @ [dquote]"

text \<open>The encoder. The first item of a list or dictionary is written after the opening
  bracket, every later one after the separator \<^verbatim>\<open>", "\<close>.\<close>

fun json_dumps :: "(rat \<Rightarrow> string) \<Rightarrow> py \<Rightarrow> string"
and dumps_items :: "(rat \<Rightarrow> string) \<Rightarrow> py list \<Rightarrow> string"
and dumps_members :: "(rat \<Rightarrow> string) \<Rightarrow> (string \<times> py) list \<Rightarrow> string"
where
  "json_dumps fr PNone = ''null''"
| "json_dumps fr (PBool b) = (if b then ''true'' else ''false'')"
| "json_dumps fr (PInt i) = str_int i"
| "json_dumps fr (PFloat r) = fr r"
| "json_dumps fr (PStr s) = encode_basestring_ascii s"
| "json_dumps fr (PList []) = ''[]''"
| "json_dumps fr (PList (x # xs)) = ''['' @ json_dumps fr x @ dumps_items fr xs @ '']''"
| "json_dumps fr (PDict []) = ''{}''"
| "json_dumps fr (PDict ((k, v) # kvs)) =
     ''{'' @ encode_basestring_ascii k @ '': '' @ json_dumps fr v @ dumps_members fr kvs @ ''}''"
| "dumps_items fr [] = []"
| "dumps_items fr (x # xs) = '', '' @ json_dumps fr x @ dumps_items fr xs"
| "dumps_members fr [] = []"
| "dumps_members fr ((k, v) # kvs) =
     '', '' @ encode_basestring_ascii k @ '': '' @ json_dumps fr v @ dumps_members fr kvs"

subsection \<open>Decoding\<close>

text \<open>
  The decoder follows the standard library's scanner: \<^verbatim>\<open>scanstring\<close>, the number pattern
  \<^verbatim>\<open>(-?(?:0|[1-9]\d*))(\.\d+)?([eE][-+]?\d+)?\<close>, \<^verbatim>\<open>JSONArray\<close>, \<^verbatim>\<open>JSONObject\<close> and
  \<^verbatim>\<open>scan_once\<close>. A function returns the decoded value with the text left over, and \<open>None\<close>
  where the library raises \<^verbatim>\<open>JSONDecodeError\<close>. Text outside the modelled fragment (an escape
  \<^verbatim>\<open>\uXXXX\<close> of a code point above 255, the constants \<^verbatim>\<open>NaN\<close> and \<^verbatim>\<open>Infinity\<close>) is answered
  with \<open>None\<close> as well.
\<close>

definition is_ws :: "char \<Rightarrow> bool" where
  "is_ws c = (c = CHR '' '' \<or> c = CHR 0x09 \<or> c = CHR 0x0A \<or> c = CHR 0x0D)"

definition skip_ws :: "string \<Rightarrow> string" where
  "skip_ws s = dropWhile is_ws s"

definition is_digit :: "char \<Rightarrow> bool" where
  "is_digit c = (c \<in> set ''0123456789'')"

definition digit_val :: "char \<Rightarrow> nat" where
  "digit_val c = (of_char c :: nat) - 48"

definition nat_of_digits :: "string \<Rightarrow> nat" where
  "nat_of_digits ds = foldl (\<lambda>a c. 10 * a + digit_val c) 0 ds"

definition hex_val :: "char \<Rightarrow> nat option" where
  "hex_val c =
     (let n = (of_char c :: nat)
      in if 48 \<le> n \<and> n \<le> 57 then Some (n - 48)
         else if 97 \<le> n \<and> n \<le> 102 then Some (n - 87)
         else if 65 \<le> n \<and> n \<le> 70 then Some (n - 55)
         else None)"

text \<open>The one-character escapes of a string literal (\<^verbatim>\<open>BACKSLASH\<close> in the library).\<close>

definition unescape :: "char \<Rightarrow> char option" where
  "unescape e =
     (if e = dquote then Some dquote
      else if e = bslash then Some bslash
      else if e = CHR ''/'' then Some (CHR ''/'')
      else if e = CHR ''b'' then Some (CHR 0x08)
      else if e = CHR ''f'' then Some (CHR 0x0C)
      else if e = CHR ''n'' then Some (CHR 0x0A)
      else if e = CHR ''r'' then Some (CHR 0x0D)
      else if e = CHR ''t'' then Some (CHR 0x09)
      else None)"

definition cons_fst :: "'a \<Rightarrow> ('a list \<times> 'b) option \<Rightarrow> ('a list \<times> 'b) option" where
  "cons_fst x r = (case r of None \<Rightarrow> None | Some (xs, rest) \<Rightarrow> Some (x # xs, rest))"

text \<open>\<^verbatim>\<open>scanstring\<close>, started after the opening quote, in strict mode: a raw control
  character ends the scan with an error.\<close>

fun scanstring :: "string \<Rightarrow> (string \<times> string) option" where
  "scanstring [] = None"
| "scanstring (c # cs) =
     (if c = dquote then Some ([], cs)
      else if c = bslash then
        (case cs of
           [] \<Rightarrow> None
         | e # r \<Rightarrow>
             if e = CHR ''u'' then
               (case r of
                  h1 # h2 # h3 # h4 # r' \<Rightarrow>
                    (case (hex_val h1, hex_val h2, hex_val h3, hex_val h4) of
                       (Some a, Some b, Some c', Some d) \<Rightarrow>
                         if a = 0 \<and> b = 0
                         then cons_fst (char_of (16 * c' + d)) (scanstring r')
                         else None
                     | _ \<Rightarrow> None)
                | _ \<Rightarrow> None)
             else
               (case unescape e of
                  None \<Rightarrow> None
                | Some ch \<Rightarrow> cons_fst ch (scanstring r)))
      else if (of_char c :: nat) < 32 then None
      else cons_fst c (scanstring cs))"

text \<open>The number pattern, matched at the start of the text: the integer part, the optional
  fraction, the optional exponent. A token with a fraction or an exponent is a float.\<close>

definition scan_int_part :: "string \<Rightarrow> (string \<times> string) option" where
  "scan_int_part s =
     (case s of
        [] \<Rightarrow> None
      | d # r \<Rightarrow>
          if d = CHR ''0'' then Some ([d], r)
          else if is_digit d then Some (d # takeWhile is_digit r, dropWhile is_digit r)
          else None)"

definition scan_frac :: "string \<Rightarrow> string \<times> string" where
  "scan_frac s =
     (case s of
        p # d # r \<Rightarrow>
          if p = CHR ''.'' \<and> is_digit d
          then (p # d # takeWhile is_digit r, dropWhile is_digit r)
          else ([], s)
      | _ \<Rightarrow> ([], s))"

definition scan_exp :: "string \<Rightarrow> string \<times> string" where
  "scan_exp s =
     (case s of
        e # d # r \<Rightarrow>
          if e = CHR ''e'' \<or> e = CHR ''E'' then
            (if is_digit d then (e # d # takeWhile is_digit r, dropWhile is_digit r)
             else if d = CHR ''+'' \<or> d = CHR ''-'' then
               (case r of
                  d' # r' \<Rightarrow>
                    if is_digit d'
                    then (e # d # d' # takeWhile is_digit r', dropWhile is_digit r')
                    else ([], s)
                | [] \<Rightarrow> ([], s))
             else ([], s))
          else ([], s)
      | _ \<Rightarrow> ([], s))"

definition scan_number :: "(string \<Rightarrow> rat) \<Rightarrow> string \<Rightarrow> (py \<times> string) option" where
  "scan_number fos s =
     (let neg = (s \<noteq> [] \<and> hd s = CHR ''-'');
          s1 = (if neg then tl s else s)
      in case scan_int_part s1 of
           None \<Rightarrow> None
         | Some (ip, r1) \<Rightarrow>
             (let (fp, r2) = scan_frac r1;
                  (ep, r3) = scan_exp r2
              in if fp = [] \<and> ep = []
                 then Some (PInt (if neg then - int (nat_of_digits ip) else int (nat_of_digits ip)), r3)
                 else Some (PFloat (fos ((if neg then ''-'' else []) @ ip @ fp @ ep)), r3)))"

text \<open>\<^verbatim>\<open>dict(pairs)\<close>: a repeated key keeps its first position and takes its last value.\<close>

definition dict_of_pairs :: "(string \<times> py) list \<Rightarrow> (string \<times> py) list" where
  "dict_of_pairs pairs = fold (\<lambda>(k, v) d. AList.update k v d) pairs []"

text \<open>
  \<open>parse_value\<close> is \<^verbatim>\<open>scan_once\<close>; \<open>parse_items\<close> is the loop of \<^verbatim>\<open>JSONArray\<close>, started at a
  value; \<open>parse_members\<close> is the loop of \<^verbatim>\<open>JSONObject\<close>, started at the quote of a key. The
  argument after the float conversion bounds the number of nested calls; \<open>json_loads\<close> starts
  with the length of the text, and a nested call has a shorter text left than the calls
  around it count (the round trip proved below needs no more for any text the encoder writes).
\<close>

fun parse_value :: "(string \<Rightarrow> rat) \<Rightarrow> nat \<Rightarrow> string \<Rightarrow> (py \<times> string) option"
and parse_items :: "(string \<Rightarrow> rat) \<Rightarrow> nat \<Rightarrow> string \<Rightarrow> (py list \<times> string) option"
and parse_members :: "(string \<Rightarrow> rat) \<Rightarrow> nat \<Rightarrow> string \<Rightarrow> ((string \<times> py) list \<times> string) option"
where
  "parse_value fos 0 s = None"
| "parse_value fos (Suc n) s =
     (case s of
        [] \<Rightarrow> None
      | c # r \<Rightarrow>
          if c = dquote then
            (case scanstring r of None \<Rightarrow> None | Some (str, r') \<Rightarrow> Some (PStr str, r'))
          else if c = CHR ''{'' then
            (case skip_ws r of
               [] \<Rightarrow> None
             | c' # r' \<Rightarrow>
                 if c' = CHR ''}'' then Some (PDict [], r')
                 else (case parse_members fos n (c' # r') of
                         None \<Rightarrow> None
                       | Some (pairs, r'') \<Rightarrow> Some (PDict (dict_of_pairs pairs), r'')))
          else if c = CHR ''['' then
            (case skip_ws r of
               [] \<Rightarrow> None
             | c' # r' \<Rightarrow>
                 if c' = CHR '']'' then Some (PList [], r')
                 else (case parse_items fos n (c' # r') of
                         None \<Rightarrow> None
                       | Some (vs, r'') \<Rightarrow> Some (PList vs, r'')))
          else if take 4 s = ''null'' then Some (PNone, drop 4 s)
          else if take 4 s = ''true'' then Some (PBool True, drop 4 s)
          else if take 5 s = ''false'' then Some (PBool False, drop 5 s)
          else scan_number fos s)"
| "parse_items fos 0 s = None"
| "parse_items fos (Suc n) s =
     (case parse_value fos n s of
        None \<Rightarrow> None
      | Some (v, r) \<Rightarrow>
          (case skip_ws r of
             [] \<Rightarrow> None
           | c # r' \<Rightarrow>
               if c = CHR '']'' then Some ([v], r')
               else if c = CHR '','' then cons_fst v (parse_items fos n (skip_ws r'))
               else None))"
| "parse_members fos 0 s = None"
| "parse_members fos (Suc n) s =
     (case s of
        [] \<Rightarrow> None
      | q # r \<Rightarrow>
          if q \<noteq> dquote then None
          else
            (case scanstring r of
               None \<Rightarrow> None
             | Some (k, r1) \<Rightarrow>
                 (case skip_ws r1 of
                    [] \<Rightarrow> None
                  | c # r2 \<Rightarrow>
                      if c \<noteq> CHR '':'' then None
                      else
                        (case parse_value fos n (skip_ws r2) of
                           None \<Rightarrow> None
                         | Some (v, r3) \<Rightarrow>
                             (case skip_ws r3 of
                                [] \<Rightarrow> None
                              | c' # r4 \<Rightarrow>
                                  if c' = CHR ''}'' then Some ([(k, v)], r4)
                                  else if c' = CHR '','' then
                                    cons_fst (k, v) (parse_members fos n (skip_ws r4))
                                  else None)))))"

text \<open>
  \<^verbatim>\<open>str.encode()\<close> and the decoding that \<^verbatim>\<open>json.loads\<close> applies to bytes, as UTF-8 on code
  points below 256: one byte below 128, the two bytes \<^verbatim>\<open>110000xx 10xxxxxx\<close> above. Bytes that
  are not such a sequence are answered with \<open>None\<close>, for which \<open>json_loads\<close> raises
  \<^verbatim>\<open>UnicodeDecodeError\<close> (the library raises it too, unless the bytes encode a code point
  outside the modelled fragment).
\<close>

definition encode_utf8 :: "string \<Rightarrow> string" where
  "encode_utf8 s =
     concat (map (\<lambda>c. let n = (of_char c :: nat)
                       in if n < 128 then [c]
                          else [char_of (192 + n div 64), char_of (128 + n mod 64)]) s)"

fun decode_utf8 :: "string \<Rightarrow> string option" where
  "decode_utf8 [] = Some []"
| "decode_utf8 [b] = (if (of_char b :: nat) < 128 then Some [b] else None)"
| "decode_utf8 (b # b' # bs) =
     (let n = (of_char b :: nat); n' = (of_char b' :: nat)
      in if n < 128 then map_option ((#) b) (decode_utf8 (b' # bs))
         else if (n = 194 \<or> n = 195) \<and> 128 \<le> n' \<and> n' < 192
         then map_option ((#) (char_of ((n - 192) * 64 + (n' - 128)))) (decode_utf8 bs)
         else None)"

definition json_loads :: "(string \<Rightarrow> rat) \<Rightarrow> string \<Rightarrow> exn + py" where
  "json_loads fos b =
     (case decode_utf8 b of
        None \<Rightarrow> Inl UnicodeDecodeError
      | Some s \<Rightarrow>
          (case parse_value fos (Suc (length s)) (skip_ws s) of
             None \<Rightarrow> Inl JSONDecodeError
           | Some (v, r) \<Rightarrow> if skip_ws r = [] then Inr v else Inl JSONDecodeError))"


subsection \<open>Values that JSON represents\<close>

text \<open>
  \<open>json_native fr fos v\<close>: the value \<open>v\<close> is one that the JSON text represents as itself. The
  keys of every dictionary are distinct (they are in Python), and for every float in \<open>v\<close> the
  interpreter's conversions agree: the \<^verbatim>\<open>repr\<close> of the float is a number token with a fraction or
  an exponent, and reading the token gives the float back.
\<close>

fun json_native :: "(rat \<Rightarrow> string) \<Rightarrow> (string \<Rightarrow> rat) \<Rightarrow> py \<Rightarrow> bool"
and native_items :: "(rat \<Rightarrow> string) \<Rightarrow> (string \<Rightarrow> rat) \<Rightarrow> py list \<Rightarrow> bool"
and native_members :: "(rat \<Rightarrow> string) \<Rightarrow> (string \<Rightarrow> rat) \<Rightarrow> (string \<times> py) list \<Rightarrow> bool"
where
  "json_native fr fos (PFloat r) = (scan_number fos (fr r) = Some (PFloat r, []))"
| "json_native fr fos (PList xs) = native_items fr fos xs"
| "json_native fr fos (PDict kvs) = (distinct (map fst kvs) \<and> native_members fr fos kvs)"
| "json_native fr fos v = True"
| "native_items fr fos [] = True"
| "native_items fr fos (x # xs) = (json_native fr fos x \<and> native_items fr fos xs)"
| "native_members fr fos [] = True"
| "native_members fr fos ((k, v) # kvs) = (json_native fr fos v \<and> native_members fr fos kvs)"

text \<open>What the loops of \<open>parse_items\<close> and \<open>parse_members\<close> do after a value: the closing
  bracket ends the loop, a comma continues it.\<close>

definition items_cont :: "(string \<Rightarrow> rat) \<Rightarrow> nat \<Rightarrow> py \<Rightarrow> string \<Rightarrow> (py list \<times> string) option" where
  "items_cont fos n v r =
     (case skip_ws r of
        [] \<Rightarrow> None
      | c # r' \<Rightarrow>
          if c = CHR '']'' then Some ([v], r')
          else if c = CHR '','' then cons_fst v (parse_items fos n (skip_ws r'))
          else None)"

definition members_cont ::
  "(string \<Rightarrow> rat) \<Rightarrow> nat \<Rightarrow> string \<times> py \<Rightarrow> string \<Rightarrow> ((string \<times> py) list \<times> string) option" where
  "members_cont fos n kv r =
     (case skip_ws r of
        [] \<Rightarrow> None
      | c # r' \<Rightarrow>
          if c = CHR ''}'' then Some ([kv], r')
          else if c = CHR '','' then cons_fst kv (parse_members fos n (skip_ws r'))
          else None)"

text \<open>A text that ends a number token (nothing, or a separator or closing bracket), and a
  text that starts a value.\<close>

definition ends_token :: "string \<Rightarrow> bool" where
  "ends_token rest =
     (case rest of [] \<Rightarrow> True | c # r \<Rightarrow> c = CHR '','' \<or> c = CHR '']'' \<or> c = CHR ''}'')"

definition starts_value :: "string \<Rightarrow> bool" where
  "starts_value s =
     (case s of
        [] \<Rightarrow> False
      | c # r \<Rightarrow> \<not> is_ws c \<and> c \<noteq> CHR '']'' \<and> c \<noteq> CHR ''}'')"

section \<open>The interpreter and the clock\<close>

text \<open>What the embedding takes from the Python interpreter without computing it: the two
  float conversions, and \<^verbatim>\<open>str(x)\<close> for a float, a list or a dictionary.\<close>

record python =
  float_repr :: "rat \<Rightarrow> string"
  float_of_str :: "string \<Rightarrow> rat"
  str_other :: "py \<Rightarrow> string"

text \<open>\<^verbatim>\<open>str(x)\<close>.\<close>

fun py_str :: "python \<Rightarrow> py \<Rightarrow> string" where
  "py_str P (PStr s) = s"
| "py_str P (PInt i) = str_int i"
| "py_str P PNone = ''None''"
| "py_str P (PBool b) = (if b then ''True'' else ''False'')"
| "py_str P v = str_other P v"

text \<open>\<^verbatim>\<open>d.get(k, default)\<close> and the dictionary display \<^verbatim>\<open>{k0: v0, ..., **row}\<close>: a key that is
  already present keeps its position and takes the new value, a new key goes last.\<close>

definition dict_get :: "(string \<times> py) list \<Rightarrow> string \<Rightarrow> py \<Rightarrow> py" where
  "dict_get d k dflt = (case map_of d k of None \<Rightarrow> dflt | Some v \<Rightarrow> v)"

definition dict_update_all :: "(string \<times> py) list \<Rightarrow> (string \<times> py) list \<Rightarrow> (string \<times> py) list" where
  "dict_update_all d row = fold (\<lambda>(k, v) acc. AList.update k v acc) row d"

text \<open>The broken-down UTC time that \<^verbatim>\<open>time.gmtime()\<close> returns, and
  \<^verbatim>\<open>time.strftime("%Y-%m-%dT%H:%M:%SZ", t)\<close>.\<close>

record struct_time =
  tm_year :: nat
  tm_mon :: nat
  tm_mday :: nat
  tm_hour :: nat
  tm_min :: nat
  tm_sec :: nat

definition pad2 :: "nat \<Rightarrow> string" where
  "pad2 n = [digit_char (n div 10), digit_char (n mod 10)]"

definition strftime_iso_z :: "struct_time \<Rightarrow> string" where
  "strftime_iso_z t =
     str_nat (tm_year t) @ ''-'' @ pad2 (tm_mon t) @ ''-'' @ pad2 (tm_mday t) @ ''T''
       @ pad2 (tm_hour t) @ '':'' @ pad2 (tm_min t) @ '':'' @ pad2 (tm_sec t) @ ''Z''"

text \<open>
  What the specification asks of the timestamp: a text parses as a UTC ISO-8601 time with a
  literal \<^verbatim>\<open>Z\<close> suffix when it has the shape \<^verbatim>\<open>YYYY-MM-DDTHH:MM:SSZ\<close> with fields in range;
  \<open>parse_iso8601_z\<close> returns the time it denotes. \<open>valid_utc\<close> is the range of the fields that
  \<^verbatim>\<open>time.gmtime()\<close> returns, for the years with four digits.
\<close>

definition valid_utc :: "struct_time \<Rightarrow> bool" where
  "valid_utc t =
     (1000 \<le> tm_year t \<and> tm_year t \<le> 9999 \<and> 1 \<le> tm_mon t \<and> tm_mon t \<le> 12
      \<and> 1 \<le> tm_mday t \<and> tm_mday t \<le> 31 \<and> tm_hour t \<le> 23 \<and> tm_min t \<le> 59
      \<and> tm_sec t \<le> 60)"

definition parse_iso8601_z :: "string \<Rightarrow> struct_time option" where
  "parse_iso8601_z s =
     (case s of
        [y1, y2, y3, y4, a, m1, m2, b, d1, d2, c, h1, h2, d, n1, n2, e, s1, s2, z] \<Rightarrow>
          if a = CHR ''-'' \<and> b = CHR ''-'' \<and> c = CHR ''T'' \<and> d = CHR '':'' \<and> e = CHR '':''
             \<and> z = CHR ''Z''
             \<and> list_all is_digit [y1, y2, y3, y4, m1, m2, d1, d2, h1, h2, n1, n2, s1, s2]
          then
            (let t = \<lparr>tm_year = nat_of_digits [y1, y2, y3, y4], tm_mon = nat_of_digits [m1, m2],
                      tm_mday = nat_of_digits [d1, d2], tm_hour = nat_of_digits [h1, h2],
                      tm_min = nat_of_digits [n1, n2], tm_sec = nat_of_digits [s1, s2]\<rparr>
             in if 1 \<le> tm_mon t \<and> tm_mon t \<le> 12 \<and> 1 \<le> tm_mday t \<and> tm_mday t \<le> 31
                   \<and> tm_hour t \<le> 23 \<and> tm_min t \<le> 59 \<and> tm_sec t \<le> 60
                then Some t else None)
          else None
      | _ \<Rightarrow> None)"

section \<open>The NATS bridge\<close>

text \<open>
  The broker client is outside the repository. A connection is a number; the oracles say
  how each call on the client ends, given the effects performed so far: \<open>None\<close> for a normal
  return, \<open>Some e\<close> for the exception raised. \<open>uuid4\<close> and \<open>gmtime\<close> are the reads of the random
  source and the clock.
\<close>

datatype nats_event =
    Import_nats
  | Connect string
  | Publish nat string string
  | Flush nat
  | Drain nat
  | Loop_close nat

record nats_world =
  import_nats :: "nats_event list \<Rightarrow> exn option"
  nats_connect :: "nats_event list \<Rightarrow> string \<Rightarrow> exn + nat"
  nats_publish :: "nats_event list \<Rightarrow> nat \<Rightarrow> string \<Rightarrow> string \<Rightarrow> exn option"
  nats_flush :: "nats_event list \<Rightarrow> nat \<Rightarrow> exn option"
  nats_drain :: "nats_event list \<Rightarrow> nat \<Rightarrow> exn option"
  loop_close :: "nats_event list \<Rightarrow> nat \<Rightarrow> exn option"
  uuid4 :: "nats_event list \<Rightarrow> string"
  gmtime :: "nats_event list \<Rightarrow> struct_time"

text \<open>The module state: the global \<^verbatim>\<open>_nc\<close>, the constant \<^verbatim>\<open>NATS_URL\<close>, and the trace.\<close>

record nats_module =
  nc :: "nat option"
  NATS_URL :: string
  nats_trace :: "nats_event list"

text \<open>\<^verbatim>\<open>except Exception\<close>: every modelled exception is caught. In \<open>ensure_connected\<close> the
  handler returns \<^verbatim>\<open>None\<close> for the failed import and for the failed constructor alike.\<close>

fun is_Exception :: "exn \<Rightarrow> bool" where
  "is_Exception _ = True"

text \<open>\<^verbatim>\<open>_SyncNats.__init__\<close>: a new event loop, driven until \<^verbatim>\<open>nats.connect(url)\<close> completes.\<close>

definition SyncNats_init :: "nats_world \<Rightarrow> nats_event list \<Rightarrow> string \<Rightarrow> (exn + nat) \<times> nats_event list" where
  "SyncNats_init w tr url = (nats_connect w tr url, tr @ [Connect url])"

text \<open>\<^verbatim>\<open>_SyncNats.publish\<close>: publish, then flush.\<close>

definition SyncNats_publish ::
  "nats_world \<Rightarrow> nats_event list \<Rightarrow> nat \<Rightarrow> string \<Rightarrow> string \<Rightarrow> exn option \<times> nats_event list"
where
  "SyncNats_publish w tr h subject payload =
     (case nats_publish w tr h subject payload of
        Some e \<Rightarrow> (Some e, tr @ [Publish h subject payload])
      | None \<Rightarrow>
          (let tr1 = tr @ [Publish h subject payload]
           in (nats_flush w tr1 h, tr1 @ [Flush h])))"

text \<open>\<^verbatim>\<open>_SyncNats.close\<close>: drain, then close the loop.\<close>

definition SyncNats_close :: "nats_world \<Rightarrow> nats_event list \<Rightarrow> nat \<Rightarrow> exn option \<times> nats_event list" where
  "SyncNats_close w tr h =
     (case nats_drain w tr h of
        Some e \<Rightarrow> (Some e, tr @ [Drain h])
      | None \<Rightarrow>
          (let tr1 = tr @ [Drain h]
           in (loop_close w tr1 h, tr1 @ [Loop_close h])))"

definition ensure_connected :: "nats_world \<Rightarrow> nats_module \<Rightarrow> nat option \<times> nats_module" where
  "ensure_connected w S =
     (case nc S of
        Some h \<Rightarrow> (Some h, S)
      | None \<Rightarrow>
          (case import_nats w (nats_trace S) of
             Some e \<Rightarrow> (None, S\<lparr>nats_trace := nats_trace S @ [Import_nats]\<rparr>)
           | None \<Rightarrow>
               (case SyncNats_init w (nats_trace S @ [Import_nats]) (NATS_URL S) of
                  (Inl e, tr) \<Rightarrow> (None, S\<lparr>nats_trace := tr\<rparr>)
                | (Inr h, tr) \<Rightarrow> (Some h, S\<lparr>nc := Some h, nats_trace := tr\<rparr>))))"

text \<open>The envelope; \<open>uid\<close> is \<^verbatim>\<open>str(uuid.uuid4())\<close> and \<open>now\<close> is \<^verbatim>\<open>time.gmtime()\<close>.\<close>

definition envelope :: "python \<Rightarrow> string \<Rightarrow> struct_time \<Rightarrow> string \<Rightarrow> py \<Rightarrow> string" where
  "envelope P uid now subject payload =
     encode_utf8
       (json_dumps (float_repr P)
          (PDict
             [(''id'', PStr uid),
              (''topic'', PStr subject),
              (''ts'', PStr (strftime_iso_z now)),
              (''version'', PStr ''v1''),
              (''source'', PStr ''llama-throughput-lab''),
              (''payload'', payload)]))"

definition safe_publish ::
  "python \<Rightarrow> nats_world \<Rightarrow> nats_module \<Rightarrow> string \<Rightarrow> py \<Rightarrow> exn option \<times> nats_module"
where
  "safe_publish P w S subject payload =
     (case ensure_connected w S of
        (None, S1) \<Rightarrow> (None, S1)
      | (Some h, S1) \<Rightarrow>
          (let tr = nats_trace S1;
               msg = envelope P (uuid4 w tr) (gmtime w tr) subject payload
           in case SyncNats_publish w tr h subject msg of
                (Some e, tr') \<Rightarrow>
                  (if is_Exception e then None else Some e, S1\<lparr>nats_trace := tr'\<rparr>)
              | (None, tr') \<Rightarrow> (None, S1\<lparr>nats_trace := tr'\<rparr>)))"

definition publish_started ::
  "python \<Rightarrow> nats_world \<Rightarrow> nats_module \<Rightarrow> string \<Rightarrow> string \<Rightarrow> (string \<times> py) list
     \<Rightarrow> exn option \<times> nats_module"
where
  "publish_started P w S sweep_type model_path config =
     safe_publish P w S ''llama.benchmark.started.v1''
       (PDict [(''sweep_type'', PStr sweep_type), (''model'', PStr model_path),
               (''config'', PDict config)])"

definition publish_cell ::
  "python \<Rightarrow> nats_world \<Rightarrow> nats_module \<Rightarrow> string \<Rightarrow> (string \<times> py) list \<Rightarrow> exn option \<times> nats_module"
where
  "publish_cell P w S sweep_type row =
     safe_publish P w S ''llama.benchmark.cell.v1''
       (PDict (dict_update_all [(''sweep_type'', PStr sweep_type)] row))"

definition publish_completed ::
  "python \<Rightarrow> nats_world \<Rightarrow> nats_module \<Rightarrow> string \<Rightarrow> (string \<times> py) list \<Rightarrow> string \<Rightarrow> int
     \<Rightarrow> exn option \<times> nats_module"
where
  "publish_completed P w S sweep_type best csv_path total_cells =
     safe_publish P w S ''llama.benchmark.completed.v1''
       (PDict [(''sweep_type'', PStr sweep_type), (''best'', PDict best),
               (''csv_path'', PStr csv_path), (''total_cells'', PInt total_cells)])"

definition close :: "nats_world \<Rightarrow> nats_module \<Rightarrow> exn option \<times> nats_module" where
  "close w S =
     (case nc S of
        None \<Rightarrow> (None, S)
      | Some h \<Rightarrow>
          (case SyncNats_close w (nats_trace S) h of
             (Some e, tr) \<Rightarrow>
               (if is_Exception e then None else Some e,
                if is_Exception e then S\<lparr>nc := None, nats_trace := tr\<rparr> else S\<lparr>nats_trace := tr\<rparr>)
           | (None, tr) \<Rightarrow> (None, S\<lparr>nc := None, nats_trace := tr\<rparr>)))"

section \<open>The CHIT bridge\<close>

text \<open>
  The module constants read from the environment at import, the requests the module sends,
  and the outside: \<open>urlopen\<close> answers a request (built by \<^verbatim>\<open>Request(...)\<close> and opened with
  \<^verbatim>\<open>urlopen(req, timeout=...)\<close>) with the body read from the response or with the exception
  raised on the way; \<open>open_rb\<close> answers \<^verbatim>\<open>open(path, "rb")\<close> and \<^verbatim>\<open>f.read()\<close> with the bytes
  of the file or with the exception raised; \<open>chit_gmtime\<close> is the clock.
\<close>

record chit_config =
  CIPHER_MEMORY_URL :: string
  PRESIGN_URL :: string
  PRESIGN_SECRET :: string

record request =
  req_method :: string
  req_url :: string
  req_headers :: "(string \<times> string) list"
  req_data :: "string option"
  req_timeout :: nat

datatype chit_event = Http request | Open_rb string

record chit_world =
  urlopen :: "chit_event list \<Rightarrow> request \<Rightarrow> exn + string"
  open_rb :: "chit_event list \<Rightarrow> string \<Rightarrow> exn + string"
  chit_gmtime :: "chit_event list \<Rightarrow> struct_time"

text \<open>\<^verbatim>\<open>os.path.basename\<close>: what follows the last slash.\<close>

definition basename :: "string \<Rightarrow> string" where
  "basename p = rev (takeWhile (\<lambda>c. c \<noteq> CHR ''/'') (rev p))"

text \<open>\<^verbatim>\<open>urllib.parse.quote_plus\<close> and \<^verbatim>\<open>urlencode\<close> on string pairs: letters, digits and
  \<^verbatim>\<open>_.-~\<close> are kept, a space becomes \<^verbatim>\<open>+\<close>, every other byte of the UTF-8 encoding becomes
  \<^verbatim>\<open>%XX\<close>.\<close>

definition always_safe :: "char \<Rightarrow> bool" where
  "always_safe c =
     (let n = (of_char c :: nat)
      in (65 \<le> n \<and> n \<le> 90) \<or> (97 \<le> n \<and> n \<le> 122) \<or> (48 \<le> n \<and> n \<le> 57)
         \<or> c = CHR ''_'' \<or> c = CHR ''.'' \<or> c = CHR ''-'' \<or> c = CHR ''~'')"

definition upper_hex_digit :: "nat \<Rightarrow> char" where
  "upper_hex_digit d = ''0123456789ABCDEF'' ! d"

definition quote_plus :: "string \<Rightarrow> string" where
  "quote_plus s =
     concat (map (\<lambda>c. if c = CHR '' '' then ''+''
                       else if always_safe c then [c]
                       else [CHR ''%'', upper_hex_digit ((of_char c :: nat) div 16),
                             upper_hex_digit ((of_char c :: nat) mod 16)])
                 (encode_utf8 s))"

fun urlencode :: "(string \<times> string) list \<Rightarrow> string" where
  "urlencode [] = []"
| "urlencode [(k, v)] = quote_plus k @ ''='' @ quote_plus v"
| "urlencode ((k, v) # kvs) = quote_plus k @ ''='' @ quote_plus v @ ''&'' @ urlencode kvs"

text \<open>\<^verbatim>\<open>data.get("url")\<close> on a decoded document: only a dictionary has the method.\<close>

fun py_get :: "py \<Rightarrow> string \<Rightarrow> exn + py" where
  "py_get (PDict d) k = Inr (dict_get d k PNone)"
| "py_get _ k = Inl AttributeError"

subsection \<open>_post_json and store_reasoning\<close>

text \<open>The result of a function that returns a value: \<open>Inr v\<close> when it returns \<open>v\<close>
  (\<open>Inr PNone\<close> for \<^verbatim>\<open>None\<close>), \<open>Inl e\<close> when it raises \<open>e\<close>; with it the trace, extended by the
  effects performed.\<close>

definition post_json ::
  "python \<Rightarrow> chit_world \<Rightarrow> chit_event list \<Rightarrow> string \<Rightarrow> py \<Rightarrow> nat \<Rightarrow> (exn + py) \<times> chit_event list"
where
  "post_json P w tr url payload timeout =
     (let req = \<lparr>req_method = ''POST'', req_url = url,
                 req_headers = [(''Content-Type'', ''application/json'')],
                 req_data = Some (encode_utf8 (json_dumps (float_repr P) payload)),
                 req_timeout = timeout\<rparr>;
          r = (case urlopen w tr req of
                 Inl e \<Rightarrow> Inl e
               | Inr body \<Rightarrow> json_loads (float_of_str P) body)
      in (case r of
            Inl e \<Rightarrow> if is_OSError e \<or> e = JSONDecodeError then Inr PNone else Inl e
          | Inr v \<Rightarrow> Inr v,
          tr @ [Http req]))"




text \<open>\<^verbatim>\<open>", ".join(...)\<close>.\<close>

fun join_comma :: "string list \<Rightarrow> string" where
  "join_comma [] = []"
| "join_comma [s] = s"
| "join_comma (s # ss) = s @ '', '' @ join_comma ss"


subsection \<open>archive_csv_to_minio\<close>

text \<open>
  The two presign requests of the source are the same lines with another \<^verbatim>\<open>method\<close>
  parameter: the request for \<open>(bucket, key, m)\<close> with the bearer secret, then
  \<^verbatim>\<open>json.loads(resp.read())\<close> and \<^verbatim>\<open>data.get("url")\<close>.
\<close>

definition presign_request :: "chit_config \<Rightarrow> string \<Rightarrow> string \<Rightarrow> string \<Rightarrow> request" where
  "presign_request cfg bucket object_key m =
     \<lparr>req_method = ''GET'',
      req_url = PRESIGN_URL cfg @ ''/presign?''
                  @ urlencode [(''bucket'', bucket), (''key'', object_key), (''method'', m)],
      req_headers = [(''Authorization'', ''Bearer '' @ PRESIGN_SECRET cfg)],
      req_data = None,
      req_timeout = 10\<rparr>"

definition presign ::
  "chit_config \<Rightarrow> python \<Rightarrow> chit_world \<Rightarrow> chit_event list \<Rightarrow> string \<Rightarrow> string \<Rightarrow> string
     \<Rightarrow> (exn + py) \<times> chit_event list"
where
  "presign cfg P w tr bucket object_key m =
     (let req = presign_request cfg bucket object_key m
      in (case urlopen w tr req of
            Inl e \<Rightarrow> Inl e
          | Inr body \<Rightarrow>
              (case json_loads (float_of_str P) body of
                 Inl e \<Rightarrow> Inl e
               | Inr data \<Rightarrow> py_get data ''url''),
          tr @ [Http req]))"

text \<open>The body of the \<^verbatim>\<open>try\<close> block.\<close>

definition archive_steps ::
  "chit_config \<Rightarrow> python \<Rightarrow> chit_world \<Rightarrow> chit_event list \<Rightarrow> string \<Rightarrow> string \<Rightarrow> string
     \<Rightarrow> (exn + py) \<times> chit_event list"
where
  "archive_steps cfg P w tr csv_path bucket object_key =
     (case presign cfg P w tr bucket object_key ''PUT'' of
        (Inl e, tr1) \<Rightarrow> (Inl e, tr1)
      | (Inr upload_url, tr1) \<Rightarrow>
          if \<not> truthy upload_url then (Inr PNone, tr1)
          else
            (case open_rb w tr1 csv_path of
               Inl e \<Rightarrow> (Inl e, tr1 @ [Open_rb csv_path])
             | Inr bytes \<Rightarrow>
                 (let tr2 = tr1 @ [Open_rb csv_path];
                      put_req = \<lparr>req_method = ''PUT'', req_url = py_str P upload_url,
                                 req_headers = [(''Content-Type'', ''text/csv'')],
                                 req_data = Some bytes, req_timeout = 30\<rparr>
                  in case urlopen w tr2 put_req of
                       Inl e \<Rightarrow> (Inl e, tr2 @ [Http put_req])
                     | Inr resp \<Rightarrow>
                         presign cfg P w (tr2 @ [Http put_req]) bucket object_key ''GET'')))"

definition archive_csv_to_minio ::
  "chit_config \<Rightarrow> python \<Rightarrow> chit_world \<Rightarrow> chit_event list \<Rightarrow> string \<Rightarrow> string \<Rightarrow> string option
     \<Rightarrow> (exn + py) \<times> chit_event list"
where
  "archive_csv_to_minio cfg P w tr csv_path bucket object_key =
     (if PRESIGN_SECRET cfg = [] then (Inr PNone, tr)
      else
        (let key = (case object_key of
                      None \<Rightarrow> ''llama-throughput-lab/'' @ basename csv_path
                    | Some k \<Rightarrow> k)
         in case archive_steps cfg P w tr csv_path bucket key of
              (Inl e, tr') \<Rightarrow> (if is_OSError e then Inr PNone else Inl e, tr')
            | (Inr v, tr') \<Rightarrow> (Inr v, tr')))"

section \<open>Example worlds\<close>

text \<open>Concrete states and outsides, used to run the embedding on the scenarios of the
  specification.\<close>

subsection \<open>Metrics\<close>

text \<open>A fresh module with the metrics library and one without; a client library that renders
  the empty registry; a port that can be bound and one that is taken.\<close>

definition M_up :: metrics_module where
  "M_up = \<lparr>HAS_PROM = True, THROUGHPUT_TPS = Map.empty, SWEEPS_TOTAL = Map.empty,
            ERRORS_TOTAL = Map.empty, LAST_SWEEP_TS = 0, BEST_THROUGHPUT = Map.empty,
            server = None, metrics_trace = []\<rparr>"

definition M_down :: metrics_module where
  "M_down = M_up\<lparr>HAS_PROM := False\<rparr>"

definition lib0 :: prom_client where
  "lib0 = \<lparr>generate_latest = (\<lambda>M. ''# no samples''),
            CONTENT_TYPE_LATEST = ''text/plain; version=0.0.4; charset=utf-8''\<rparr>"

definition bind_ok :: "metrics_event list \<Rightarrow> int \<Rightarrow> exn option" where
  "bind_ok tr port = None"

definition bind_in_use :: "metrics_event list \<Rightarrow> int \<Rightarrow> exn option" where
  "bind_in_use tr port = Some OSError"

subsection \<open>Interpreter and clock\<close>

text \<open>An interpreter in which the one float that occurs, 42.5, has the \<^verbatim>\<open>repr\<close> \<^verbatim>\<open>42.5\<close>; the
  time 2026-11-04 09:05:00 UTC.\<close>

definition py0 :: python where
  "py0 = \<lparr>float_repr = (\<lambda>r. ''42.5''), float_of_str = (\<lambda>s. 85 / 2), str_other = (\<lambda>v. ''42.5'')\<rparr>"

definition t0 :: struct_time where
  "t0 = \<lparr>tm_year = 2026, tm_mon = 11, tm_mday = 4, tm_hour = 9, tm_min = 5, tm_sec = 0\<rparr>"

definition payload0 :: py where
  "payload0 =
     PDict [(''sweep_type'', PStr ''threads''), (''throughput_tps'', PFloat (85 / 2)),
            (''errors'', PInt 0), (''tags'', PList [PStr ''a\"b'', PNone, PBool True])]"

definition best0 :: "(string \<times> py) list" where
  "best0 = [(''throughput'', PFloat (85 / 2)), (''batch'', PInt 8)]"

subsection \<open>Brokers\<close>

text \<open>A broker that accepts the connection (handle 7) and fails every publish; an unreachable
  broker (the client library is there, the connection fails); the bridge before its first
  use and the connected bridge.\<close>

definition w_publish_fails :: nats_world where
  "w_publish_fails =
     \<lparr>import_nats = (\<lambda>tr. None),
      nats_connect = (\<lambda>tr url. Inr 7),
      nats_publish = (\<lambda>tr h subject msg. Some OSError),
      nats_flush = (\<lambda>tr h. None),
      nats_drain = (\<lambda>tr h. None),
      loop_close = (\<lambda>tr h. None),
      uuid4 = (\<lambda>tr. ''3f2b8c1e-5d4a-4e6f-9a7b-0c1d2e3f4a5b''),
      gmtime = (\<lambda>tr. t0)\<rparr>"

definition w_unreachable :: nats_world where
  "w_unreachable = w_publish_fails\<lparr>nats_connect := (\<lambda>tr url. Inl OSError)\<rparr>"

definition S_new :: nats_module where
  "S_new = \<lparr>nc = None, NATS_URL = ''nats://localhost:4222'', nats_trace = []\<rparr>"

definition S_connected :: nats_module where
  "S_connected = S_new\<lparr>nc := Some 7\<rparr>"

subsection \<open>Gateways\<close>

text \<open>
  The stub scenario of the specification: the gateway answers the presign request for
  \<^verbatim>\<open>PUT\<close> with the upload URL \<^verbatim>\<open>u1\<close> and the one for \<^verbatim>\<open>GET\<close> with the download URL \<^verbatim>\<open>u2\<close>, the
  object storage accepts the \<^verbatim>\<open>PUT\<close> to \<^verbatim>\<open>u1\<close>, and the file \<^verbatim>\<open>/tmp/run.csv\<close> exists.
\<close>

definition cfg_no_secret :: chit_config where
  "cfg_no_secret =
     \<lparr>CIPHER_MEMORY_URL = ''http://localhost:8096'', PRESIGN_URL = ''http://localhost:8088'',
      PRESIGN_SECRET = []\<rparr>"

definition cfg_secret :: chit_config where
  "cfg_secret = cfg_no_secret\<lparr>PRESIGN_SECRET := ''s3cret''\<rparr>"

definition w_stub :: chit_world where
  "w_stub =
     \<lparr>urlopen = (\<lambda>tr req.
         if req_method req = ''GET'' \<and> req_url req =
              ''http://localhost:8088/presign?bucket=outputs&key=llama-throughput-lab%2Frun.csv&method=PUT''
         then Inr ''{\"url\": \"u1\"}''
         else if req_method req = ''GET'' \<and> req_url req =
              ''http://localhost:8088/presign?bucket=outputs&key=llama-throughput-lab%2Frun.csv&method=GET''
         then Inr ''{\"url\": \"u2\"}''
         else if req_method req = ''PUT'' \<and> req_url req = ''u1'' then Inr []
         else Inl URLError),
      open_rb = (\<lambda>tr path. if path = ''/tmp/run.csv'' then Inr ''config,tps'' else Inl FileNotFoundError),
      chit_gmtime = (\<lambda>tr. t0)\<rparr>"

definition stub_presign_PUT :: request where
  "stub_presign_PUT =
     \<lparr>req_method = ''GET'',
      req_url = ''http://localhost:8088/presign?bucket=outputs&key=llama-throughput-lab%2Frun.csv&method=PUT'',
      req_headers = [(''Authorization'', ''Bearer s3cret'')],
      req_data = None, req_timeout = 10\<rparr>"



text \<open>A gateway that answers every request with a body that is not JSON.\<close>

definition w_not_json :: chit_world where
  "w_not_json = w_stub\<lparr>urlopen := (\<lambda>tr req. Inr ''<html>502</html>'')\<rparr>"

section \<open>Properties of the metrics module\<close>

lemma str_nat_11: "str_nat 11 = ''11''"
  by (simp add: str_nat.simps digit_char_def)

text \<open>
  C6. For every GET request: the path \<^verbatim>\<open>/healthz\<close> is answered with status 200, content type
  \<^verbatim>\<open>application/json\<close> and the body \<^verbatim>\<open>{"ok":true}\<close>, whether or not the metrics library was
  initialised; the path \<^verbatim>\<open>/metrics\<close> is answered with status 200 and the rendered registry
  when the library was initialised and with 404 otherwise; every other path is answered
  with 404.
\<close>

theorem do_GET_routes:
  "do_GET lib M ''/healthz'' =
     Response 200 [(''Content-Type'', ''application/json''), (''Content-Length'', ''11'')]
       ''{\"ok\":true}''
   \<and> (HAS_PROM M \<longrightarrow>
        do_GET lib M ''/metrics'' =
          Response 200
            [(''Content-Type'', CONTENT_TYPE_LATEST lib),
             (''Content-Length'', str_nat (length (generate_latest lib M)))]
            (generate_latest lib M))
   \<and> (\<not> HAS_PROM M \<longrightarrow> do_GET lib M ''/metrics'' = Error_Response 404)
   \<and> (path \<noteq> ''/healthz'' \<and> path \<noteq> ''/metrics'' \<longrightarrow> do_GET lib M path = Error_Response 404)"
proof -
  have healthz: "do_GET lib M ''/healthz'' =
     Response 200 [(''Content-Type'', ''application/json''), (''Content-Length'', ''11'')]
       ''{\"ok\":true}''"
  proof -
    have len: "length ''{\"ok\":true}'' = 11" by simp
    show ?thesis unfolding do_GET_def Let_def len str_nat_11 by simp
  qed
  have metrics_up: "HAS_PROM M \<longrightarrow>
        do_GET lib M ''/metrics'' =
          Response 200
            [(''Content-Type'', CONTENT_TYPE_LATEST lib),
             (''Content-Length'', str_nat (length (generate_latest lib M)))]
            (generate_latest lib M)"
    by (simp add: do_GET_def Let_def)
  have metrics_down: "\<not> HAS_PROM M \<longrightarrow> do_GET lib M ''/metrics'' = Error_Response 404"
    by (simp add: do_GET_def)
  have other: "path \<noteq> ''/healthz'' \<and> path \<noteq> ''/metrics'' \<longrightarrow>
      do_GET lib M path = Error_Response 404"
    by (simp add: do_GET_def)
  from healthz metrics_up metrics_down other show ?thesis by blast
qed

theorem do_GET_routes_witness:
  "HAS_PROM M_up \<and> \<not> HAS_PROM M_down
   \<and> ''/status'' \<noteq> ''/healthz'' \<and> ''/status'' \<noteq> ''/metrics''
   \<and> do_GET lib0 M_up ''/metrics'' =
        Response 200
          [(''Content-Type'', ''text/plain; version=0.0.4; charset=utf-8''),
           (''Content-Length'', ''12'')] ''# no samples''
   \<and> do_GET lib0 M_down ''/metrics'' = Error_Response 404
   \<and> do_GET lib0 M_down ''/healthz'' =
        Response 200 [(''Content-Type'', ''application/json''), (''Content-Length'', ''11'')]
          ''{\"ok\":true}''
   \<and> do_GET lib0 M_down ''/status'' = Error_Response 404"
proof -
  have up: "HAS_PROM M_up" and down: "\<not> HAS_PROM M_down"
    by (simp_all add: M_up_def M_down_def)
  have other: "''/status'' \<noteq> ''/healthz'' \<and> ''/status'' \<noteq> ''/metrics''"
    by simp
  have len: "str_nat (length (generate_latest lib0 M_up)) = ''12''"
    by (simp add: lib0_def str_nat.simps digit_char_def)
  from do_GET_routes [of lib0 M_up "''/status''"] up len
  have m_up: "do_GET lib0 M_up ''/metrics'' =
        Response 200
          [(''Content-Type'', ''text/plain; version=0.0.4; charset=utf-8''),
           (''Content-Length'', ''12'')] ''# no samples''"
    by (simp add: lib0_def)
  from do_GET_routes [of lib0 M_down "''/status''"] down other
  have m_down: "do_GET lib0 M_down ''/metrics'' = Error_Response 404"
    and h_down: "do_GET lib0 M_down ''/healthz'' =
        Response 200 [(''Content-Type'', ''application/json''), (''Content-Length'', ''11'')]
          ''{\"ok\":true}''"
    and o_down: "do_GET lib0 M_down ''/status'' = Error_Response 404"
    by blast+
  from up down other m_up m_down h_down o_down show ?thesis by blast
qed

lemma sample_labels: "sample (labels fam l) l' = sample fam l'"
  by (simp add: sample_def labels_def split: option.splits)

lemma sample_upd: "sample (fam(l \<mapsto> v)) l' = (if l' = l then v else sample fam l')"
  by (simp add: sample_def)

lemma labels_other: "l' \<noteq> l \<Longrightarrow> labels fam l l' = fam l'"
  by (simp add: labels_def split: option.splits)

lemma update_cell_HAS_PROM: "HAS_PROM (snd (update_cell M m s c v e)) = HAS_PROM M"
  by (simp add: update_cell_def Let_def split: sum.splits)

lemma update_cell_gauge:
  "HAS_PROM M \<Longrightarrow>
     THROUGHPUT_TPS (snd (update_cell M m s c v e)) = (THROUGHPUT_TPS M)((m, s, c) \<mapsto> v)"
  by (auto simp: update_cell_def Let_def gauge_set_def labels_def split: sum.splits option.splits)

lemma update_cell_errors_sample:
  "HAS_PROM M \<Longrightarrow>
     sample (ERRORS_TOTAL (snd (update_cell M m s c v e))) s' =
       sample (ERRORS_TOTAL M) s' + (if s' = s \<and> 0 < e then of_int e else 0)"
  by (auto simp: update_cell_def Let_def counter_inc_def sample_labels sample_upd
           split: sum.splits if_splits)

lemma update_cell_errors_other:
  "s' \<noteq> s \<Longrightarrow> ERRORS_TOTAL (snd (update_cell M m s c v e)) s' = ERRORS_TOTAL M s'"
  by (auto simp: update_cell_def Let_def counter_inc_def labels_other split: sum.splits if_splits)

text \<open>A negative error count makes the client library raise after the gauge is set.\<close>

lemma update_cell_result:
  "HAS_PROM M \<Longrightarrow> fst (update_cell M m s c v e) = (if e < 0 then Some ValueError else None)"
  by (auto simp: update_cell_def Let_def counter_inc_def split: sum.splits if_splits)

text \<open>
  C7. For every call \<^verbatim>\<open>update_cell(model, sweep_type, config_label, throughput_tps, errors)\<close>
  with the metrics library available: the throughput gauge of exactly the label combination
  \<open>(model, sweep_type, config_label)\<close> is set to \<open>throughput_tps\<close> and every other series of the
  gauge is left as it was, so that two calls with different configuration labels leave two
  series, each with its own value; the error counter of \<open>sweep_type\<close> grows by \<open>errors\<close> when
  \<open>errors > 0\<close> and does not grow otherwise, and the counters of the other sweep types are left
  as they were. With the library unavailable the call changes nothing and returns.
\<close>

theorem update_cell_sets_gauge_and_counts_errors:
  "(HAS_PROM M \<longrightarrow>
      THROUGHPUT_TPS (snd (update_cell M m s c v e)) (m, s, c) = Some v
    \<and> (\<forall>l. l \<noteq> (m, s, c) \<longrightarrow>
          THROUGHPUT_TPS (snd (update_cell M m s c v e)) l = THROUGHPUT_TPS M l)
    \<and> (c' \<noteq> c \<longrightarrow>
          THROUGHPUT_TPS (snd (update_cell (snd (update_cell M m s c v e)) m s c' v' e')) (m, s, c)
            = Some v
        \<and> THROUGHPUT_TPS (snd (update_cell (snd (update_cell M m s c v e)) m s c' v' e')) (m, s, c')
            = Some v')
    \<and> sample (ERRORS_TOTAL (snd (update_cell M m s c v e))) s =
        sample (ERRORS_TOTAL M) s + (if 0 < e then of_int e else 0)
    \<and> (\<forall>s'. s' \<noteq> s \<longrightarrow> ERRORS_TOTAL (snd (update_cell M m s c v e)) s' = ERRORS_TOTAL M s'))
   \<and> (\<not> HAS_PROM M \<longrightarrow> update_cell M m s c v e = (None, M))"
proof -
  have down: "\<not> HAS_PROM M \<longrightarrow> update_cell M m s c v e = (None, M)"
    by (simp add: update_cell_def)
  {
    assume up: "HAS_PROM M"
    let ?M1 = "snd (update_cell M m s c v e)"
    have up1: "HAS_PROM ?M1"
      using up by (simp add: update_cell_HAS_PROM)
    have g: "THROUGHPUT_TPS ?M1 = (THROUGHPUT_TPS M)((m, s, c) \<mapsto> v)"
      using up by (rule update_cell_gauge)
    have g2: "THROUGHPUT_TPS (snd (update_cell ?M1 m s c' v' e')) =
                (THROUGHPUT_TPS ?M1)((m, s, c') \<mapsto> v')"
      using up1 by (rule update_cell_gauge)
    have set_here: "THROUGHPUT_TPS ?M1 (m, s, c) = Some v"
      by (simp add: g)
    have frame: "\<forall>l. l \<noteq> (m, s, c) \<longrightarrow> THROUGHPUT_TPS ?M1 l = THROUGHPUT_TPS M l"
      by (simp add: g)
    have two: "c' \<noteq> c \<longrightarrow>
          THROUGHPUT_TPS (snd (update_cell ?M1 m s c' v' e')) (m, s, c) = Some v
        \<and> THROUGHPUT_TPS (snd (update_cell ?M1 m s c' v' e')) (m, s, c') = Some v'"
      by (simp add: g2 g)
    have err: "sample (ERRORS_TOTAL ?M1) s =
        sample (ERRORS_TOTAL M) s + (if 0 < e then of_int e else 0)"
      using update_cell_errors_sample [OF up, of m s c v e s] by simp
    have err_frame: "\<forall>s'. s' \<noteq> s \<longrightarrow> ERRORS_TOTAL ?M1 s' = ERRORS_TOTAL M s'"
      by (simp add: update_cell_errors_other)
    note set_here frame two err err_frame
  }
  with down show ?thesis by blast
qed

theorem update_cell_sets_gauge_and_counts_errors_witness:
  "HAS_PROM M_up \<and> \<not> HAS_PROM M_down \<and> ''b16'' \<noteq> ''b8''
   \<and> (''m'', ''s'', ''b4'') \<noteq> (''m'', ''s'', ''b8'') \<and> ''other'' \<noteq> ''s''
   \<and> THROUGHPUT_TPS (snd (update_cell M_up ''m'' ''s'' ''b8'' (85 / 2) 3)) (''m'', ''s'', ''b8'')
       = Some (85 / 2)
   \<and> THROUGHPUT_TPS (snd (update_cell M_up ''m'' ''s'' ''b8'' (85 / 2) 3)) (''m'', ''s'', ''b4'')
       = None
   \<and> THROUGHPUT_TPS
       (snd (update_cell (snd (update_cell M_up ''m'' ''s'' ''b8'' (85 / 2) 3)) ''m'' ''s'' ''b16'' 50 0))
       (''m'', ''s'', ''b8'') = Some (85 / 2)
   \<and> THROUGHPUT_TPS
       (snd (update_cell (snd (update_cell M_up ''m'' ''s'' ''b8'' (85 / 2) 3)) ''m'' ''s'' ''b16'' 50 0))
       (''m'', ''s'', ''b16'') = Some 50
   \<and> sample (ERRORS_TOTAL (snd (update_cell M_up ''m'' ''s'' ''b8'' (85 / 2) 3))) ''s'' = 3
   \<and> ERRORS_TOTAL (snd (update_cell M_up ''m'' ''s'' ''b8'' (85 / 2) 3)) ''other'' = None
   \<and> update_cell M_down ''m'' ''s'' ''b8'' (85 / 2) 3 = (None, M_down)"
proof -
  have up: "HAS_PROM M_up" and down: "\<not> HAS_PROM M_down"
    by (simp_all add: M_up_def M_down_def)
  have ne: "''b16'' \<noteq> ''b8''" "(''m'', ''s'', ''b4'') \<noteq> (''m'', ''s'', ''b8'')" "''other'' \<noteq> ''s''"
    by simp_all
  have base: "THROUGHPUT_TPS M_up (''m'', ''s'', ''b4'') = None"
    "sample (ERRORS_TOTAL M_up) ''s'' = 0" "ERRORS_TOTAL M_up ''other'' = None"
    by (simp_all add: M_up_def sample_def)
  from update_cell_sets_gauge_and_counts_errors
         [of M_up "''m''" "''s''" "''b8''" "85 / 2" 3 "''b16''" 50 0] up ne base
  have a: "THROUGHPUT_TPS (snd (update_cell M_up ''m'' ''s'' ''b8'' (85 / 2) 3)) (''m'', ''s'', ''b8'')
       = Some (85 / 2)"
    and b: "THROUGHPUT_TPS (snd (update_cell M_up ''m'' ''s'' ''b8'' (85 / 2) 3)) (''m'', ''s'', ''b4'')
       = None"
    and c: "THROUGHPUT_TPS
       (snd (update_cell (snd (update_cell M_up ''m'' ''s'' ''b8'' (85 / 2) 3)) ''m'' ''s'' ''b16'' 50 0))
       (''m'', ''s'', ''b8'') = Some (85 / 2)"
    and d: "THROUGHPUT_TPS
       (snd (update_cell (snd (update_cell M_up ''m'' ''s'' ''b8'' (85 / 2) 3)) ''m'' ''s'' ''b16'' 50 0))
       (''m'', ''s'', ''b16'') = Some 50"
    and e: "sample (ERRORS_TOTAL (snd (update_cell M_up ''m'' ''s'' ''b8'' (85 / 2) 3))) ''s'' = 3"
    and f: "ERRORS_TOTAL (snd (update_cell M_up ''m'' ''s'' ''b8'' (85 / 2) 3)) ''other'' = None"
    by simp_all
  from update_cell_sets_gauge_and_counts_errors [of M_down "''m''" "''s''" "''b8''" "85 / 2" 3] down
  have g: "update_cell M_down ''m'' ''s'' ''b8'' (85 / 2) 3 = (None, M_down)"
    by blast
  from up down ne a b c d e f g show ?thesis by blast
qed

text \<open>
  C9. \<^verbatim>\<open>start_server\<close> is idempotent: for every port and \<^verbatim>\<open>background\<close> argument, a call
  made while a listener is bound returns at once, performs no effect and leaves the module
  state, the bound server and its port included, as it was; in particular the call that
  follows a first call which bound the listener in the background.
\<close>

theorem start_server_idempotent:
  "(server M \<noteq> None \<longrightarrow> start_server bind M port background = (Returns, M))
   \<and> (server M = None \<and> bind (metrics_trace M) port1 = None \<longrightarrow>
        fst (start_server bind M port1 True) = Returns
      \<and> server (snd (start_server bind M port1 True)) = Some port1
      \<and> start_server bind' (snd (start_server bind M port1 True)) port background
          = (Returns, snd (start_server bind M port1 True)))"
  by (simp add: start_server_def Let_def)

theorem start_server_idempotent_witness:
  "server M_up = None \<and> bind_ok (metrics_trace M_up) 8201 = None
   \<and> server (snd (start_server bind_ok M_up 8201 True)) \<noteq> None
   \<and> fst (start_server bind_ok M_up 8201 True) = Returns
   \<and> server (snd (start_server bind_ok M_up 8201 True)) = Some 8201
   \<and> start_server bind_in_use (snd (start_server bind_ok M_up 8201 True)) 9000 False
       = (Returns, snd (start_server bind_ok M_up 8201 True))"
proof -
  have pre: "server M_up = None \<and> bind_ok (metrics_trace M_up) 8201 = None"
    by (simp add: M_up_def bind_ok_def)
  from start_server_idempotent [of M_up bind_ok 9000 False 8201 bind_in_use] pre
  have first: "fst (start_server bind_ok M_up 8201 True) = Returns"
    and bound: "server (snd (start_server bind_ok M_up 8201 True)) = Some 8201"
    and again: "start_server bind_in_use (snd (start_server bind_ok M_up 8201 True)) 9000 False
       = (Returns, snd (start_server bind_ok M_up 8201 True))"
    by blast+
  from bound have "server (snd (start_server bind_ok M_up 8201 True)) \<noteq> None"
    by simp
  with pre first bound again show ?thesis by blast
qed

section \<open>The JSON round trip\<close>

text \<open>
  Decoding what the encoder writes gives the value back: \<open>json_loads\<close> after \<open>json_dumps\<close> and
  \<open>encode_utf8\<close> is the identity on the values that JSON represents as themselves. The proof
  goes through the three layers of the text: string literals and bytes, number tokens, and
  the nesting of lists and dictionaries.
\<close>

subsection \<open>Strings and bytes\<close>

lemma of_char_lt_256: "(of_char c :: nat) < 256"
  by (cases c) simp

lemma hex_val_hex_digit: "d < 16 \<Longrightarrow> hex_val (hex_digit d) = Some d"
proof -
  assume "d < 16"
  then have "d = 0 \<or> d = 1 \<or> d = 2 \<or> d = 3 \<or> d = 4 \<or> d = 5 \<or> d = 6 \<or> d = 7
      \<or> d = 8 \<or> d = 9 \<or> d = 10 \<or> d = 11 \<or> d = 12 \<or> d = 13 \<or> d = 14 \<or> d = 15"
    by arith
  then show ?thesis
    by (auto simp: hex_val_def hex_digit_def Let_def)
qed

lemma hex_val_zero: "hex_val CHR ''0'' = Some 0"
  by (simp add: hex_val_def)

lemma char_of_div_mod: "char_of (16 * ((of_char c :: nat) div 16) + (of_char c :: nat) mod 16) = c"
  by simp

lemma cons_fst_Some: "cons_fst x (Some (xs, r)) = Some (x # xs, r)"
  by (simp add: cons_fst_def)

text \<open>Every escape the encoder writes for a character is read back as that character.\<close>

lemma scanstring_escape_char:
  "scanstring (escape_char c @ t) = cons_fst c (scanstring t)"
proof -
  have lt: "(of_char c :: nat) div 16 < 16" "(of_char c :: nat) mod 16 < 16"
    using of_char_lt_256 [of c] by (simp_all add: less_mult_imp_div_less)
  show ?thesis
    using lt
    by (auto simp: escape_char_def bslash_def dquote_def unescape_def
          hex_val_hex_digit hex_val_zero)
qed

lemma scanstring_encoded:
  "scanstring (concat (map escape_char s) @ dquote # rest) = Some (s, rest)"
  by (induction s) (simp_all add: scanstring_escape_char cons_fst_Some)

text \<open>The UTF-8 bytes of a text decode to the text.\<close>

lemma decode_utf8_ascii:
  "(of_char c :: nat) < 128 \<Longrightarrow> decode_utf8 (c # bs) = map_option ((#) c) (decode_utf8 bs)"
  by (cases bs) simp_all

lemma utf8_two_bytes:
  assumes "128 \<le> (n::nat)" "n < 256"
  shows "(of_char (char_of (192 + n div 64) :: char) :: nat) = 192 + n div 64"
    and "(of_char (char_of (128 + n mod 64) :: char) :: nat) = 128 + n mod 64"
    and "192 + n div 64 = 194 \<or> 192 + n div 64 = 195"
    and "(192 + n div 64 - 192) * 64 + (128 + n mod 64 - 128) = n"
proof -
  have lo: "2 \<le> n div 64"
    using div_le_mono [OF assms(1), of 64] by simp
  have hi: "n div 64 < 4"
    using assms(2) by (simp add: less_mult_imp_div_less)
  have m: "n mod 64 < 64" by simp
  show "(of_char (char_of (192 + n div 64) :: char) :: nat) = 192 + n div 64"
    using hi by (simp add: of_char_of [where ?'a = nat])
  show "(of_char (char_of (128 + n mod 64) :: char) :: nat) = 128 + n mod 64"
    using m by (simp add: of_char_of [where ?'a = nat])
  show "192 + n div 64 = 194 \<or> 192 + n div 64 = 195"
    using lo hi by arith
  show "(192 + n div 64 - 192) * 64 + (128 + n mod 64 - 128) = n"
    by simp
qed

lemma decode_utf8_two:
  assumes "128 \<le> (of_char c :: nat)"
  shows "decode_utf8 (char_of (192 + (of_char c :: nat) div 64)
                      # char_of (128 + (of_char c :: nat) mod 64) # bs)
           = map_option ((#) c) (decode_utf8 bs)"
proof -
  let ?n = "of_char c :: nat"
  note f = utf8_two_bytes [OF assms of_char_lt_256 [of c]]
  have dec: "char_of ((192 + ?n div 64 - 192) * 64 + (128 + ?n mod 64 - 128)) = c"
    unfolding f(4) by simp
  have cont: "128 \<le> 128 + ?n mod 64" "128 + ?n mod 64 < 192"
    by simp_all
  have lead: "\<not> 192 + ?n div 64 < 128"
    by simp
  show ?thesis
    unfolding decode_utf8.simps Let_def f(1) f(2)
    using f(3) cont lead dec by auto
qed

lemma encode_utf8_Cons:
  "encode_utf8 (c # s) =
      (if (of_char c :: nat) < 128 then [c]
       else [char_of (192 + (of_char c :: nat) div 64), char_of (128 + (of_char c :: nat) mod 64)])
      @ encode_utf8 s"
  by (simp add: encode_utf8_def Let_def)

lemma decode_encode_utf8: "decode_utf8 (encode_utf8 s) = Some s"
proof (induction s)
  case Nil
  then show ?case by (simp add: encode_utf8_def)
next
  case (Cons c s)
  show ?case
  proof (cases "(of_char c :: nat) < 128")
    case True
    then show ?thesis using Cons.IH by (simp add: encode_utf8_Cons decode_utf8_ascii)
  next
    case False
    then have "128 \<le> (of_char c :: nat)" by simp
    from decode_utf8_two [OF this, of "encode_utf8 s"] False Cons.IH
    show ?thesis by (simp add: encode_utf8_Cons)
  qed
qed

subsection \<open>Numbers\<close>

text \<open>The decimal digits of a number are a token of the number pattern, with the number as
  its value.\<close>

lemma digit_cases:
  "d < 10 \<Longrightarrow> d = 0 \<or> d = 1 \<or> d = 2 \<or> d = 3 \<or> d = 4 \<or> d = 5 \<or> d = 6 \<or> d = 7 \<or> d = 8 \<or> d = (9::nat)"
  by arith

lemma digit_char_props:
  assumes "d < 10"
  shows "is_digit (digit_char d)" and "digit_val (digit_char d) = d"
    and "(digit_char d = CHR ''0'') = (d = 0)" and "digit_char d \<noteq> CHR ''-''"
  using digit_cases [OF assms]
  by (auto simp: is_digit_def digit_char_def digit_val_def)

lemma str_nat_digits: "list_all is_digit (str_nat n)"
proof (induction n rule: str_nat.induct)
  case (1 n)
  show ?case
  proof (cases "n < 10")
    case True
    then show ?thesis
      by (subst str_nat.simps) (simp add: digit_char_props)
  next
    case False
    with 1 show ?thesis
      by (subst str_nat.simps) (simp add: digit_char_props)
  qed
qed

lemma str_nat_nonempty: "str_nat n \<noteq> []"
  by (subst str_nat.simps) simp

lemma nat_of_digits_snoc: "nat_of_digits (ds @ [c]) = 10 * nat_of_digits ds + digit_val c"
  by (simp add: nat_of_digits_def)

lemma nat_of_digits_str_nat: "nat_of_digits (str_nat n) = n"
proof (induction n rule: str_nat.induct)
  case (1 n)
  show ?case
  proof (cases "n < 10")
    case True
    then show ?thesis
      by (subst str_nat.simps) (simp add: nat_of_digits_def digit_char_props)
  next
    case False
    with 1 have "nat_of_digits (str_nat (n div 10)) = n div 10" by simp
    with False show ?thesis
      by (subst str_nat.simps) (simp add: nat_of_digits_snoc digit_char_props)
  qed
qed

lemma hd_str_nat_zero: "(hd (str_nat n) = CHR ''0'') = (n = 0)"
proof (induction n rule: str_nat.induct)
  case (1 n)
  show ?case
  proof (cases "n < 10")
    case True
    then show ?thesis
      by (subst str_nat.simps) (simp add: digit_char_props)
  next
    case False
    with 1 have "(hd (str_nat (n div 10)) = CHR ''0'') = (n div 10 = 0)" by simp
    moreover from False have "n div 10 \<noteq> 0" by simp
    ultimately show ?thesis
      using False str_nat_nonempty [of "n div 10"]
      by (subst str_nat.simps) (simp add: hd_append)
  qed
qed

lemma str_nat_0: "str_nat 0 = ''0''"
  by (simp add: str_nat.simps digit_char_def)

lemma takeWhile_all: "list_all P xs \<Longrightarrow> takeWhile P xs = xs"
  by (induction xs) simp_all

lemma dropWhile_all: "list_all P xs \<Longrightarrow> dropWhile P xs = []"
  by (induction xs) simp_all

lemma scan_int_part_str_nat: "scan_int_part (str_nat n) = Some (str_nat n, [])"
proof (cases "n = 0")
  case True
  then show ?thesis by (simp add: str_nat_0 scan_int_part_def)
next
  case False
  obtain d ds where s: "str_nat n = d # ds"
    using str_nat_nonempty [of n] by (cases "str_nat n") auto
  from hd_str_nat_zero [of n] False s have nz: "d \<noteq> CHR ''0''" by simp
  from str_nat_digits [of n] s have dig: "is_digit d" "list_all is_digit ds" by simp_all
  show ?thesis
    using nz dig by (simp add: s scan_int_part_def takeWhile_all dropWhile_all)
qed

lemma scan_frac_Nil: "scan_frac [] = ([], [])"
  by (simp add: scan_frac_def)

lemma scan_exp_Nil: "scan_exp [] = ([], [])"
  by (simp add: scan_exp_def)

lemma scan_number_str_int: "scan_number fos (str_int i) = Some (PInt i, [])"
proof (cases "i < 0")
  case True
  then show ?thesis
    by (simp add: str_int_def scan_number_def scan_int_part_str_nat scan_frac_Nil scan_exp_Nil
          nat_of_digits_str_nat)
next
  case False
  obtain d ds where s: "str_nat (nat i) = d # ds"
    using str_nat_nonempty [of "nat i"] by (cases "str_nat (nat i)") auto
  from str_nat_digits [of "nat i"] s have "is_digit d" by simp
  then have "d \<noteq> CHR ''-''" by (auto simp: is_digit_def)
  with s have hd: "hd (str_nat (nat i)) \<noteq> CHR ''-''" by simp
  from False hd show ?thesis
    using scan_int_part_str_nat [of "nat i"] nat_of_digits_str_nat [of "nat i"]
    by (simp add: str_int_def scan_number_def scan_frac_Nil scan_exp_Nil)
qed

text \<open>A token followed by a separator or a closing bracket is scanned as the token alone:
  the text after it is left over.\<close>

lemma ends_token_not_digit: "ends_token (c # r) \<Longrightarrow> \<not> is_digit c"
  by (auto simp: ends_token_def is_digit_def)

lemma ends_token_not_num:
  "ends_token (c # r) \<Longrightarrow>
     c \<noteq> CHR ''.'' \<and> c \<noteq> CHR ''e'' \<and> c \<noteq> CHR ''E'' \<and> c \<noteq> CHR ''+'' \<and> c \<noteq> CHR ''-''"
  by (auto simp: ends_token_def)

lemma takeWhile_digit_ext:
  "ends_token rest \<Longrightarrow> takeWhile is_digit (r @ rest) = takeWhile is_digit r"
proof (induction r)
  case Nil
  then show ?case by (cases rest) (simp_all add: ends_token_not_digit)
next
  case (Cons a r)
  then show ?case by simp
qed

lemma dropWhile_digit_ext:
  "ends_token rest \<Longrightarrow> dropWhile is_digit (r @ rest) = dropWhile is_digit r @ rest"
proof (induction r)
  case Nil
  then show ?case by (cases rest) (simp_all add: ends_token_not_digit)
next
  case (Cons a r)
  then show ?case by simp
qed

lemma scan_int_part_ext:
  "ends_token rest \<Longrightarrow> scan_int_part s = Some (ip, r) \<Longrightarrow>
     scan_int_part (s @ rest) = Some (ip, r @ rest)"
  by (cases s)
     (auto simp: scan_int_part_def takeWhile_digit_ext dropWhile_digit_ext split: if_splits)

lemma scan_frac_ext:
  assumes "ends_token rest"
  shows "scan_frac (s @ rest) = (fst (scan_frac s), snd (scan_frac s) @ rest)"
proof (cases s)
  case Nil
  show ?thesis
  proof (cases rest)
    case Nil
    with \<open>s = []\<close> show ?thesis by (simp add: scan_frac_def)
  next
    case (Cons c r)
    with assms ends_token_not_num [of c r] have "c \<noteq> CHR ''.''" by simp
    with Cons \<open>s = []\<close> show ?thesis
      by (cases r) (simp_all add: scan_frac_def)
  qed
next
  case (Cons p s')
  show ?thesis
  proof (cases s')
    case Nil
    show ?thesis
    proof (cases rest)
      case Nil
      with \<open>s = p # s'\<close> \<open>s' = []\<close> show ?thesis by (simp add: scan_frac_def)
    next
      case (Cons c r)
      with assms ends_token_not_digit [of c r] have "\<not> is_digit c" by simp
      with Cons \<open>s = p # s'\<close> \<open>s' = []\<close> show ?thesis
        by (simp add: scan_frac_def)
    qed
  next
    case (Cons d r)
    with \<open>s = p # s'\<close> assms show ?thesis
      by (simp add: scan_frac_def takeWhile_digit_ext dropWhile_digit_ext)
  qed
qed

lemma scan_exp_ext:
  assumes "ends_token rest"
  shows "scan_exp (s @ rest) = (fst (scan_exp s), snd (scan_exp s) @ rest)"
proof (cases rest)
  case Nil
  then show ?thesis by simp
next
  case (Cons c rs)
  with assms have nd: "\<not> is_digit c"
    and nn: "c \<noteq> CHR ''.''" "c \<noteq> CHR ''e''" "c \<noteq> CHR ''E''" "c \<noteq> CHR ''+''" "c \<noteq> CHR ''-''"
    using ends_token_not_digit [of c rs] ends_token_not_num [of c rs] by simp_all
  have tw: "\<And>r. takeWhile is_digit (r @ c # rs) = takeWhile is_digit r"
    and dw: "\<And>r. dropWhile is_digit (r @ c # rs) = dropWhile is_digit r @ c # rs"
    using assms Cons takeWhile_digit_ext [of rest] dropWhile_digit_ext [of rest] by simp_all
  show ?thesis
  proof (cases s)
    case Nil
    with Cons nn show ?thesis
      by (cases rs) (simp_all add: scan_exp_def)
  next
    case s1: (Cons e s')
    show ?thesis
    proof (cases s')
      case Nil
      with s1 Cons nd nn show ?thesis
        by (simp add: scan_exp_def)
    next
      case s2: (Cons d s'')
      show ?thesis
      proof (cases s'')
        case Nil
        with s1 s2 Cons nd nn tw [of "[]"] dw [of "[]"] show ?thesis
          by (simp add: scan_exp_def)
      next
        case s3: (Cons d' r')
        with s1 s2 Cons tw [of r'] dw [of r'] tw [of "d' # r'"] dw [of "d' # r'"] show ?thesis
          by (simp add: scan_exp_def)
      qed
    qed
  qed
qed

lemma scan_number_ext:
  assumes "ends_token rest" and "scan_number fos s = Some (v, r)"
  shows "scan_number fos (s @ rest) = Some (v, r @ rest)"
proof -
  from assms(2) have ne: "s \<noteq> []"
    by (auto simp: scan_number_def scan_int_part_def)
  let ?neg = "hd s = CHR ''-''"
  let ?s1 = "if ?neg then tl s else s"
  from ne have hd_app: "hd (s @ rest) = hd s" and tl_app: "tl (s @ rest) = tl s @ rest"
    by simp_all
  have s1_app: "(if ?neg then tl (s @ rest) else s @ rest) = ?s1 @ rest"
    using tl_app by simp
  from assms(2) ne obtain ip r1 where ip: "scan_int_part ?s1 = Some (ip, r1)"
    by (auto simp: scan_number_def Let_def split: option.splits)
  have ip': "scan_int_part (?s1 @ rest) = Some (ip, r1 @ rest)"
    using scan_int_part_ext [OF assms(1) ip] .
  obtain fp r2 where fp: "scan_frac r1 = (fp, r2)" by (cases "scan_frac r1")
  have fp': "scan_frac (r1 @ rest) = (fp, r2 @ rest)"
    using scan_frac_ext [OF assms(1), of r1] fp by simp
  obtain ep r3 where ep: "scan_exp r2 = (ep, r3)" by (cases "scan_exp r2")
  have ep': "scan_exp (r2 @ rest) = (ep, r3 @ rest)"
    using scan_exp_ext [OF assms(1), of r2] ep by simp
  from assms(2) ne ip fp ep
  have res: "(if fp = [] \<and> ep = []
              then Some (PInt (if ?neg then - int (nat_of_digits ip) else int (nat_of_digits ip)), r3)
              else Some (PFloat (fos ((if ?neg then ''-'' else []) @ ip @ fp @ ep)), r3)) = Some (v, r)"
    by (simp add: scan_number_def Let_def)
  have "scan_number fos (s @ rest) =
          (if fp = [] \<and> ep = []
           then Some (PInt (if ?neg then - int (nat_of_digits ip) else int (nat_of_digits ip)), r3 @ rest)
           else Some (PFloat (fos ((if ?neg then ''-'' else []) @ ip @ fp @ ep)), r3 @ rest))"
    unfolding scan_number_def Let_def
    using ne hd_app s1_app ip' fp' ep' by simp
  with res show ?thesis
    by (auto split: if_splits)
qed

lemma scan_number_head:
  assumes "scan_number fos s = Some (v, r)"
  shows "s \<noteq> [] \<and> (hd s = CHR ''-'' \<or> is_digit (hd s))"
  using assms
  by (cases s) (auto simp: scan_number_def scan_int_part_def Let_def is_digit_def
                     split: option.splits if_splits list.splits)

subsection \<open>Values\<close>

text \<open>The loops of the decoder, one step at a time.\<close>

lemma parse_items_Suc:
  "parse_items fos (Suc n) s =
     (case parse_value fos n s of None \<Rightarrow> None | Some (v, r) \<Rightarrow> items_cont fos n v r)"
  by (simp add: items_cont_def split: option.splits)

lemma parse_members_key:
  "parse_members fos (Suc n) (encode_basestring_ascii k @ CHR '':'' # CHR '' '' # t) =
     (case parse_value fos n (skip_ws t) of
        None \<Rightarrow> None
      | Some (v, r) \<Rightarrow> members_cont fos n (k, v) r)"
  by (simp add: encode_basestring_ascii_def scanstring_encoded skip_ws_def is_ws_def
        members_cont_def split: option.splits)

lemma starts_value_skip_ws: "starts_value s \<Longrightarrow> skip_ws (s @ t) = s @ t"
  by (cases s) (simp_all add: starts_value_def skip_ws_def)

lemma starts_value_space: "starts_value s \<Longrightarrow> skip_ws (CHR '' '' # s @ t) = s @ t"
  by (cases s) (simp_all add: starts_value_def skip_ws_def is_ws_def)

lemma is_digit_starts: "is_digit c \<Longrightarrow> starts_value (c # r)"
  by (auto simp: starts_value_def is_digit_def is_ws_def)

lemma number_starts:
  assumes "scan_number fos s = Some (v, r)"
  shows "starts_value s"
proof -
  from scan_number_head [OF assms] obtain c t where s: "s = c # t"
    and c: "c = CHR ''-'' \<or> is_digit c"
    by (cases s) auto
  from c show ?thesis
    unfolding s using is_digit_starts [of c t]
    by (auto simp: starts_value_def is_ws_def)
qed

lemma json_dumps_starts: "json_native fr fos v \<Longrightarrow> starts_value (json_dumps fr v)"
proof (cases v)
  case (PInt i)
  then show ?thesis
    using number_starts [OF scan_number_str_int [of fos i]] by simp
next
  case (PFloat r)
  assume "json_native fr fos v"
  with PFloat show ?thesis
    using number_starts [of fos "fr r"] by simp
next
  case (PList xs)
  then show ?thesis by (cases xs) (simp_all add: starts_value_def is_ws_def)
next
  case (PDict kvs)
  then show ?thesis
    by (cases kvs) (auto simp: starts_value_def is_ws_def)
qed (simp_all add: starts_value_def is_ws_def encode_basestring_ascii_def dquote_def)

lemma parse_value_number:
  assumes "scan_number fos s = Some (v, [])" and "ends_token rest"
  shows "parse_value fos (Suc n) (s @ rest) = Some (v, rest)"
proof -
  from scan_number_head [OF assms(1)] obtain c t where s: "s = c # t"
    and c: "c = CHR ''-'' \<or> is_digit c"
    by (cases s) auto
  from c have no: "c \<noteq> dquote" "c \<noteq> CHR ''{''" "c \<noteq> CHR ''[''"
      "c \<noteq> CHR ''n''" "c \<noteq> CHR ''t''" "c \<noteq> CHR ''f''"
    by (auto simp: is_digit_def dquote_def)
  have kw: "take 4 (s @ rest) \<noteq> ''null''" "take 4 (s @ rest) \<noteq> ''true''"
      "take 5 (s @ rest) \<noteq> ''false''"
    using no by (auto simp: s take_Cons')
  from scan_number_ext [OF assms(2) assms(1)]
  have "scan_number fos (s @ rest) = Some (v, rest)" by simp
  with kw no show ?thesis
    by (simp add: s)
qed

lemma parse_value_null: "parse_value fos (Suc n) (''null'' @ rest) = Some (PNone, rest)"
  by (simp add: dquote_def)

lemma parse_value_true: "parse_value fos (Suc n) (''true'' @ rest) = Some (PBool True, rest)"
  by (simp add: dquote_def)

lemma parse_value_false: "parse_value fos (Suc n) (''false'' @ rest) = Some (PBool False, rest)"
  by (simp add: dquote_def)

lemma parse_value_string:
  "parse_value fos (Suc n) (encode_basestring_ascii s @ rest) = Some (PStr s, rest)"
  by (simp add: encode_basestring_ascii_def scanstring_encoded)

lemma parse_value_empty_list: "parse_value fos (Suc n) (''[]'' @ rest) = Some (PList [], rest)"
  by (simp add: dquote_def skip_ws_def is_ws_def)

lemma parse_value_empty_dict: "parse_value fos (Suc n) (''{}'' @ rest) = Some (PDict [], rest)"
  by (simp add: dquote_def skip_ws_def is_ws_def)

lemma parse_value_list:
  assumes "starts_value t"
  shows "parse_value fos (Suc n) (CHR ''['' # t @ u) =
           (case parse_items fos n (t @ u) of None \<Rightarrow> None | Some (vs, r) \<Rightarrow> Some (PList vs, r))"
proof -
  from assms obtain c r where t: "t = c # r" and c: "\<not> is_ws c" "c \<noteq> CHR '']''"
    by (cases t) (auto simp: starts_value_def)
  then show ?thesis
    by (simp add: dquote_def skip_ws_def)
qed

lemma parse_value_dict:
  "parse_value fos (Suc n) (CHR ''{'' # encode_basestring_ascii k @ u) =
           (case parse_members fos n (encode_basestring_ascii k @ u) of
              None \<Rightarrow> None
            | Some (pairs, r) \<Rightarrow> Some (PDict (dict_of_pairs pairs), r))"
  by (simp add: dquote_def skip_ws_def is_ws_def encode_basestring_ascii_def)

text \<open>\<^verbatim>\<open>dict(pairs)\<close> of pairs with distinct keys is the list of pairs.\<close>

lemma update_fresh: "k \<notin> fst ` set al \<Longrightarrow> AList.update k v al = al @ [(k, v)]"
  by (induction al) auto

lemma fold_update_distinct:
  "distinct (map fst kvs) \<Longrightarrow> fst ` set acc \<inter> fst ` set kvs = {} \<Longrightarrow>
     fold (\<lambda>(k, v) d. AList.update k v d) kvs acc = acc @ kvs"
proof (induction kvs arbitrary: acc)
  case Nil
  then show ?case by simp
next
  case (Cons kv kvs)
  obtain k v where kv: "kv = (k, v)" by (cases kv)
  from Cons.prems kv have fresh: "k \<notin> fst ` set acc" by auto
  from Cons.prems kv have d: "distinct (map fst kvs)"
    and disj: "fst ` set (acc @ [(k, v)]) \<inter> fst ` set kvs = {}"
    by auto
  show ?case
    using Cons.IH [OF d disj] by (simp add: kv update_fresh [OF fresh])
qed

lemma dict_of_pairs_distinct: "distinct (map fst kvs) \<Longrightarrow> dict_of_pairs kvs = kvs"
  using fold_update_distinct [of kvs "[]"] by (simp add: dict_of_pairs_def)

lemma ends_token_items: "ends_token (dumps_items fr xs @ CHR '']'' # rest)"
  by (cases xs) (simp_all add: ends_token_def)

lemma ends_token_members: "ends_token (dumps_members fr kvs @ CHR ''}'' # rest)"
  by (cases kvs) (auto simp: ends_token_def)

text \<open>
  The round trip of the scanner, by induction along the encoder: a value that JSON represents,
  followed by a text that ends a token, is read back with that text left over, as soon as
  the bound on nested calls is at least the length of the encoded value. The second and third
  statement are the same for the items after the first of a list and for the members after
  the first of a dictionary.
\<close>

lemmas parser_simps = parse_value.simps parse_items.simps parse_members.simps

lemma parse_roundtrip:
  "json_native fr fos v \<Longrightarrow> ends_token rest \<Longrightarrow> length (json_dumps fr v) \<le> n \<Longrightarrow>
     parse_value fos n (json_dumps fr v @ rest) = Some (v, rest)"
  "native_items fr fos xs \<Longrightarrow> length (dumps_items fr xs) \<le> n \<Longrightarrow>
     items_cont fos n x0 (dumps_items fr xs @ CHR '']'' # rest) = Some (x0 # xs, rest)"
  "native_members fr fos kvs \<Longrightarrow> length (dumps_members fr kvs) \<le> n \<Longrightarrow>
     members_cont fos n kv0 (dumps_members fr kvs @ CHR ''}'' # rest) = Some (kv0 # kvs, rest)"
proof (induction fr v and fr xs and fr kvs arbitrary: n rest and n rest x0 and n rest kv0
       rule: json_dumps_dumps_items_dumps_members.induct)
  case (1 fr)
  then obtain m where "n = Suc m" by (cases n) auto
  then show ?case using parse_value_null [of fos m rest] by (simp del: parser_simps)
next
  case (2 fr b)
  then obtain m where "n = Suc m" by (cases n) (auto split: if_splits)
  then show ?case
    using parse_value_true [of fos m rest] parse_value_false [of fos m rest] by (simp del: parser_simps)
next
  case (3 fr i)
  have "str_int i \<noteq> []"
    using scan_number_head [OF scan_number_str_int [of fos i]] by (simp del: parser_simps)
  with 3 obtain m where "n = Suc m" by (cases n) auto
  then show ?case
    using parse_value_number [OF scan_number_str_int [of fos i] "3.prems"(2), where n = m]
    by (simp del: parser_simps)
next
  case (4 fr r)
  then have tok: "scan_number fos (fr r) = Some (PFloat r, [])" by (simp del: parser_simps)
  then have "fr r \<noteq> []" using scan_number_head by blast
  with 4 obtain m where "n = Suc m" by (cases n) auto
  then show ?case
    using parse_value_number [OF tok "4.prems"(2), where n = m] by (simp del: parser_simps)
next
  case (5 fr s)
  then obtain m where "n = Suc m" by (cases n) (auto simp: encode_basestring_ascii_def)
  then show ?case using parse_value_string [of fos m s rest] by (simp del: parser_simps)
next
  case (6 fr)
  then obtain m where "n = Suc m" by (cases n) auto
  then show ?case using parse_value_empty_list [of fos m rest] by (simp del: parser_simps)
next
  case (7 fr x xs)
  from "7.prems" have nx: "json_native fr fos x" and nxs: "native_items fr fos xs"
    by simp_all
  from "7.prems"(3) obtain k where n: "n = Suc (Suc k)"
    and kx: "length (json_dumps fr x) \<le> k" and kxs: "length (dumps_items fr xs) \<le> k"
    by (cases n; cases "n - 1") auto
  let ?tail = "dumps_items fr xs @ CHR '']'' # rest"
  have px: "parse_value fos k (json_dumps fr x @ ?tail) = Some (x, ?tail)"
    using "7.IH"(1) [OF nx ends_token_items kx] .
  have pxs: "items_cont fos k x ?tail = Some (x # xs, rest)"
    using "7.IH"(2) [OF nxs kxs] .
  have "parse_items fos (Suc k) (json_dumps fr x @ ?tail) = Some (x # xs, rest)"
    by (simp add: parse_items_Suc px pxs del: parser_simps)
  then have "parse_value fos (Suc (Suc k)) (CHR ''['' # json_dumps fr x @ ?tail)
               = Some (PList (x # xs), rest)"
    using parse_value_list [OF json_dumps_starts [OF nx], of fos "Suc k" ?tail] by (simp del: parser_simps)
  then show ?case by (simp add: n del: parser_simps)
next
  case (8 fr)
  then obtain m where "n = Suc m" by (cases n) auto
  then show ?case using parse_value_empty_dict [of fos m rest] by (simp del: parser_simps)
next
  case (9 fr k v kvs)
  from "9.prems" have nv: "json_native fr fos v" and nkvs: "native_members fr fos kvs"
    and dist: "distinct (map fst ((k, v) # kvs))"
    by simp_all
  from "9.prems"(3) obtain j where n: "n = Suc (Suc j)"
    and jv: "length (json_dumps fr v) \<le> j" and jkvs: "length (dumps_members fr kvs) \<le> j"
    by (cases n; cases "n - 1") (auto simp: encode_basestring_ascii_def)
  let ?tail = "dumps_members fr kvs @ CHR ''}'' # rest"
  have pv: "parse_value fos j (json_dumps fr v @ ?tail) = Some (v, ?tail)"
    using "9.IH"(1) [OF nv ends_token_members jv] .
  have pkvs: "members_cont fos j (k, v) ?tail = Some ((k, v) # kvs, rest)"
    using "9.IH"(2) [OF nkvs jkvs] .
  have sk: "skip_ws (json_dumps fr v @ ?tail) = json_dumps fr v @ ?tail"
    using starts_value_skip_ws [OF json_dumps_starts [OF nv]] .
  have "parse_members fos (Suc j)
          (encode_basestring_ascii k @ CHR '':'' # CHR '' '' # json_dumps fr v @ ?tail)
          = Some ((k, v) # kvs, rest)"
    by (simp add: parse_members_key sk pv pkvs del: parser_simps)
  then have "parse_value fos (Suc (Suc j))
          (CHR ''{'' # encode_basestring_ascii k @ CHR '':'' # CHR '' '' # json_dumps fr v @ ?tail)
          = Some (PDict ((k, v) # kvs), rest)"
    using dist by (simp add: parse_value_dict dict_of_pairs_distinct del: parser_simps)
  then show ?case by (simp add: n del: parser_simps)
next
  case (10 fr)
  show ?case by (simp add: items_cont_def skip_ws_def is_ws_def del: parser_simps)
next
  case (11 fr x xs)
  from "11.prems" have nx: "json_native fr fos x" and nxs: "native_items fr fos xs"
    by simp_all
  from "11.prems"(2) obtain k where n: "n = Suc k"
    and kx: "length (json_dumps fr x) \<le> k" and kxs: "length (dumps_items fr xs) \<le> k"
    by (cases n) auto
  let ?tail = "dumps_items fr xs @ CHR '']'' # rest"
  have px: "parse_value fos k (json_dumps fr x @ ?tail) = Some (x, ?tail)"
    using "11.IH"(1) [OF nx ends_token_items kx] .
  have pxs: "items_cont fos k x ?tail = Some (x # xs, rest)"
    using "11.IH"(2) [OF nxs kxs] .
  have items: "parse_items fos (Suc k) (json_dumps fr x @ ?tail) = Some (x # xs, rest)"
    by (simp add: parse_items_Suc px pxs del: parser_simps)
  have sk: "skip_ws (CHR '' '' # json_dumps fr x @ ?tail) = json_dumps fr x @ ?tail"
    using starts_value_space [OF json_dumps_starts [OF nx]] .
  have "items_cont fos (Suc k) x0 (CHR '','' # CHR '' '' # json_dumps fr x @ ?tail)
          = Some (x0 # x # xs, rest)"
    unfolding items_cont_def
    by (simp add: skip_ws_def [of "CHR '','' # _"] is_ws_def sk items cons_fst_def del: parser_simps)
  then show ?case by (simp add: n del: parser_simps)
next
  case (12 fr)
  show ?case by (simp add: members_cont_def skip_ws_def is_ws_def del: parser_simps)
next
  case (13 fr k v kvs)
  from "13.prems" have nv: "json_native fr fos v" and nkvs: "native_members fr fos kvs"
    by simp_all
  from "13.prems"(2) obtain j where n: "n = Suc j"
    and jv: "length (json_dumps fr v) \<le> j" and jkvs: "length (dumps_members fr kvs) \<le> j"
    by (cases n) auto
  let ?tail = "dumps_members fr kvs @ CHR ''}'' # rest"
  have pv: "parse_value fos j (json_dumps fr v @ ?tail) = Some (v, ?tail)"
    using "13.IH"(1) [OF nv ends_token_members jv] .
  have pkvs: "members_cont fos j (k, v) ?tail = Some ((k, v) # kvs, rest)"
    using "13.IH"(2) [OF nkvs jkvs] .
  have sk: "skip_ws (json_dumps fr v @ ?tail) = json_dumps fr v @ ?tail"
    using starts_value_skip_ws [OF json_dumps_starts [OF nv]] .
  have members: "parse_members fos (Suc j)
          (encode_basestring_ascii k @ CHR '':'' # CHR '' '' # json_dumps fr v @ ?tail)
          = Some ((k, v) # kvs, rest)"
    by (simp add: parse_members_key sk pv pkvs del: parser_simps)
  have sk2: "skip_ws (CHR '' '' # encode_basestring_ascii k @ CHR '':'' # CHR '' '' # json_dumps fr v @ ?tail)
               = encode_basestring_ascii k @ CHR '':'' # CHR '' '' # json_dumps fr v @ ?tail"
    by (simp add: skip_ws_def is_ws_def encode_basestring_ascii_def dquote_def del: parser_simps)
  have "members_cont fos (Suc j) kv0
          (CHR '','' # CHR '' '' # encode_basestring_ascii k @ CHR '':'' # CHR '' ''
             # json_dumps fr v @ ?tail)
          = Some (kv0 # (k, v) # kvs, rest)"
    unfolding members_cont_def
    by (simp add: skip_ws_def [of "CHR '','' # _"] is_ws_def sk2 members cons_fst_def del: parser_simps)
  then show ?case by (simp add: n del: parser_simps)
qed

subsection \<open>Documents and timestamps\<close>

lemma skip_ws_Nil: "skip_ws [] = []"
  by (simp add: skip_ws_def)

lemma length_four: "length xs = 4 \<Longrightarrow> \<exists>a b c d. xs = [a, b, c, d]"
  by (auto simp: numeral_eq_Suc length_Suc_conv)

text \<open>\<^verbatim>\<open>json.loads(json.dumps(v).encode()) == v\<close>.\<close>

lemma json_loads_dumps:
  assumes "json_native fr fos v"
  shows "json_loads fos (encode_utf8 (json_dumps fr v)) = Inr v"
proof -
  let ?s = "json_dumps fr v"
  have sk: "skip_ws ?s = ?s"
    using starts_value_skip_ws [OF json_dumps_starts [OF assms], of "[]"] by simp
  have "parse_value fos (Suc (length ?s)) (?s @ []) = Some (v, [])"
    by (rule parse_roundtrip(1) [OF assms]) (simp_all add: ends_token_def)
  then show ?thesis
    by (simp add: json_loads_def decode_encode_utf8 sk skip_ws_Nil del: parser_simps)
qed

text \<open>A time with fields in range is rendered by \<open>strftime_iso_z\<close> as a text that parses back
  to it.\<close>

lemma length_str_nat_step: "10 \<le> n \<Longrightarrow> length (str_nat n) = Suc (length (str_nat (n div 10)))"
  by (subst str_nat.simps) simp

lemma length_str_nat_small: "n < 10 \<Longrightarrow> length (str_nat n) = 1"
  by (subst str_nat.simps) simp

lemma length_str_nat_year:
  assumes "1000 \<le> y" "y \<le> 9999"
  shows "length (str_nat y) = 4"
proof -
  have a: "10 \<le> y" "10 \<le> y div 10" "10 \<le> y div 10 div 10" "y div 10 div 10 div 10 < 10"
    using assms by auto
  show ?thesis
    by (simp add: length_str_nat_step [OF a(1)] length_str_nat_step [OF a(2)]
          length_str_nat_step [OF a(3)] length_str_nat_small [OF a(4)])
qed

lemma pad2_props:
  assumes "n < 100"
  shows "list_all is_digit (pad2 n)" and "nat_of_digits (pad2 n) = n"
proof -
  from assms have d: "n div 10 < 10" "n mod 10 < 10" by auto
  show "list_all is_digit (pad2 n)"
    by (simp add: pad2_def digit_char_props(1) [OF d(1)] digit_char_props(1) [OF d(2)])
  show "nat_of_digits (pad2 n) = n"
    by (simp add: pad2_def nat_of_digits_def digit_char_props(2) [OF d(1)]
          digit_char_props(2) [OF d(2)])
qed

lemma parse_strftime:
  assumes "valid_utc t"
  shows "parse_iso8601_z (strftime_iso_z t) = Some t"
proof -
  from assms have y: "1000 \<le> tm_year t" "tm_year t \<le> 9999"
    and r: "1 \<le> tm_mon t" "tm_mon t \<le> 12" "1 \<le> tm_mday t" "tm_mday t \<le> 31"
      "tm_hour t \<le> 23" "tm_min t \<le> 59" "tm_sec t \<le> 60"
    by (simp_all add: valid_utc_def)
  from length_four [OF length_str_nat_year [OF y]]
  obtain y1 y2 y3 y4 where ys: "str_nat (tm_year t) = [y1, y2, y3, y4]"
    by blast
  from str_nat_digits [of "tm_year t"] ys have yd: "list_all is_digit [y1, y2, y3, y4]" by simp
  from nat_of_digits_str_nat [of "tm_year t"] ys have yv: "nat_of_digits [y1, y2, y3, y4] = tm_year t"
    by simp
  have lt: "tm_mon t < 100" "tm_mday t < 100" "tm_hour t < 100" "tm_min t < 100" "tm_sec t < 100"
    using r by simp_all
  obtain m1 m2 where mo: "pad2 (tm_mon t) = [m1, m2]" by (simp add: pad2_def)
  obtain d1 d2 where da: "pad2 (tm_mday t) = [d1, d2]" by (simp add: pad2_def)
  obtain h1 h2 where ho: "pad2 (tm_hour t) = [h1, h2]" by (simp add: pad2_def)
  obtain n1 n2 where mi: "pad2 (tm_min t) = [n1, n2]" by (simp add: pad2_def)
  obtain s1 s2 where se: "pad2 (tm_sec t) = [s1, s2]" by (simp add: pad2_def)
  have dig: "list_all is_digit [m1, m2]" "list_all is_digit [d1, d2]" "list_all is_digit [h1, h2]"
      "list_all is_digit [n1, n2]" "list_all is_digit [s1, s2]"
    using pad2_props(1) [OF lt(1)] pad2_props(1) [OF lt(2)] pad2_props(1) [OF lt(3)]
      pad2_props(1) [OF lt(4)] pad2_props(1) [OF lt(5)]
    by (simp_all add: mo da ho mi se)
  have val: "nat_of_digits [m1, m2] = tm_mon t" "nat_of_digits [d1, d2] = tm_mday t"
      "nat_of_digits [h1, h2] = tm_hour t" "nat_of_digits [n1, n2] = tm_min t"
      "nat_of_digits [s1, s2] = tm_sec t"
    using pad2_props(2) [OF lt(1)] pad2_props(2) [OF lt(2)] pad2_props(2) [OF lt(3)]
      pad2_props(2) [OF lt(4)] pad2_props(2) [OF lt(5)]
    by (simp_all add: mo da ho mi se)
  have rendered: "strftime_iso_z t =
      [y1, y2, y3, y4, CHR ''-'', m1, m2, CHR ''-'', d1, d2, CHR ''T'', h1, h2, CHR '':'', n1, n2,
       CHR '':'', s1, s2, CHR ''Z'']"
    by (simp add: strftime_iso_z_def ys mo da ho mi se)
  show ?thesis
    unfolding rendered parse_iso8601_z_def
    using yd dig r by (simp add: yv val Let_def)
qed

section \<open>Properties of the NATS bridge\<close>

lemma ensure_connected_memo: "nc S = Some h \<Longrightarrow> ensure_connected w S = (Some h, S)"
  by (simp add: ensure_connected_def)

lemma ensure_connected_import_fails:
  "nc S = None \<Longrightarrow> import_nats w (nats_trace S) = Some e \<Longrightarrow>
     ensure_connected w S = (None, S\<lparr>nats_trace := nats_trace S @ [Import_nats]\<rparr>)"
  by (simp add: ensure_connected_def)

lemma ensure_connected_connect_fails:
  "nc S = None \<Longrightarrow> import_nats w (nats_trace S) = None \<Longrightarrow>
   nats_connect w (nats_trace S @ [Import_nats]) (NATS_URL S) = Inl e \<Longrightarrow>
     ensure_connected w S =
       (None, S\<lparr>nats_trace := nats_trace S @ [Import_nats, Connect (NATS_URL S)]\<rparr>)"
  by (simp add: ensure_connected_def SyncNats_init_def)

lemma ensure_connected_connects:
  "nc S = None \<Longrightarrow> import_nats w (nats_trace S) = None \<Longrightarrow>
   nats_connect w (nats_trace S @ [Import_nats]) (NATS_URL S) = Inr h \<Longrightarrow>
     ensure_connected w S =
       (Some h, S\<lparr>nc := Some h, nats_trace := nats_trace S @ [Import_nats, Connect (NATS_URL S)]\<rparr>)"
  by (simp add: ensure_connected_def SyncNats_init_def)

lemma ensure_connected_trace:
  "nc S = None \<Longrightarrow>
     \<exists>tr. nats_trace (snd (ensure_connected w S)) = nats_trace S @ Import_nats # tr"
  by (auto simp: ensure_connected_def SyncNats_init_def split: option.splits sum.splits)

lemma SyncNats_publish_trace:
  "snd (SyncNats_publish w tr h subject msg) = tr @ [Publish h subject msg]
   \<or> snd (SyncNats_publish w tr h subject msg) = tr @ [Publish h subject msg, Flush h]"
  by (simp add: SyncNats_publish_def Let_def split: option.splits)

lemma safe_publish_connected:
  assumes "nc S = Some h"
  shows "nc (snd (safe_publish P w S subject payload)) = Some h"
    and "nats_trace (snd (safe_publish P w S subject payload)) =
           snd (SyncNats_publish w (nats_trace S) h subject
                  (envelope P (uuid4 w (nats_trace S)) (gmtime w (nats_trace S)) subject payload))"
  using assms
  by (auto simp: safe_publish_def ensure_connected_memo Let_def split: prod.splits option.splits)

lemma safe_publish_disconnected_trace:
  assumes "nc S = None"
  shows "\<exists>tr. nats_trace (snd (safe_publish P w S subject payload)) = nats_trace S @ Import_nats # tr"
proof -
  obtain r S1 where ec: "ensure_connected w S = (r, S1)"
    by (cases "ensure_connected w S")
  from ensure_connected_trace [OF assms, of w] ec
  obtain tr where tr: "nats_trace S1 = nats_trace S @ Import_nats # tr"
    by auto
  show ?thesis
  proof (cases r)
    case None
    with ec tr show ?thesis by (simp add: safe_publish_def)
  next
    case (Some h)
    let ?msg = "envelope P (uuid4 w (nats_trace S1)) (gmtime w (nats_trace S1)) subject payload"
    from SyncNats_publish_trace [of w "nats_trace S1" h subject ?msg]
    have "\<exists>tr'. snd (SyncNats_publish w (nats_trace S1) h subject ?msg) = nats_trace S1 @ tr'"
      by auto
    then obtain tr' where "snd (SyncNats_publish w (nats_trace S1) h subject ?msg) = nats_trace S1 @ tr'"
      by blast
    with ec Some tr show ?thesis
      by (auto simp: safe_publish_def Let_def split: prod.splits option.splits)
  qed
qed

text \<open>No public function of the bridge raises.\<close>

lemma safe_publish_returns: "fst (safe_publish P w S subject payload) = None"
  by (auto simp: safe_publish_def Let_def split: prod.splits option.splits)

lemma close_returns: "fst (close w S) = None"
  by (auto simp: close_def split: prod.splits option.splits)

lemma close_clears: "nc (snd (close w S)) = None"
  by (auto simp: close_def split: prod.splits option.splits)

lemma close_never_connected: "nc S = None \<Longrightarrow> close w S = (None, S)"
  by (simp add: close_def)

text \<open>
  C2, as the code has it. A failure while connecting (the import or the connection) leaves
  the handle unset, and a publish that finds the handle unset starts the connect sequence
  again. A successful connect stores the handle, and every later call reuses it without any
  effect. A publish on a stored handle keeps the handle whether it succeeds or fails: its
  only effects are the publish and the flush on that handle, so after a failed publish the
  next one uses the same handle and does not reconnect. \<^verbatim>\<open>close()\<close> always clears the handle,
  and on a bridge that never connected it does nothing.
\<close>

theorem handle_state_machine:
  "(nc S = None
      \<and> (import_nats w (nats_trace S) \<noteq> None
         \<or> (\<exists>e. nats_connect w (nats_trace S @ [Import_nats]) (NATS_URL S) = Inl e))
      \<longrightarrow> fst (ensure_connected w S) = None \<and> nc (snd (ensure_connected w S)) = None)
   \<and> (nc S = None
      \<longrightarrow> (\<exists>tr. nats_trace (snd (safe_publish P w S subject payload))
                  = nats_trace S @ Import_nats # tr))
   \<and> (nc S = None \<and> import_nats w (nats_trace S) = None
        \<and> nats_connect w (nats_trace S @ [Import_nats]) (NATS_URL S) = Inr h
      \<longrightarrow> fst (ensure_connected w S) = Some h \<and> nc (snd (ensure_connected w S)) = Some h)
   \<and> (nc S = Some h \<longrightarrow> ensure_connected w S = (Some h, S))
   \<and> (nc S = Some h
      \<longrightarrow> nc (snd (safe_publish P w S subject payload)) = Some h
        \<and> (nats_trace (snd (safe_publish P w S subject payload)) =
              nats_trace S @
                [Publish h subject
                   (envelope P (uuid4 w (nats_trace S)) (gmtime w (nats_trace S)) subject payload)]
           \<or> nats_trace (snd (safe_publish P w S subject payload)) =
              nats_trace S @
                [Publish h subject
                   (envelope P (uuid4 w (nats_trace S)) (gmtime w (nats_trace S)) subject payload),
                 Flush h]))
   \<and> nc (snd (close w S)) = None
   \<and> (nc S = None \<longrightarrow> close w S = (None, S))"
proof -
  have fail: "nc S = None
      \<and> (import_nats w (nats_trace S) \<noteq> None
         \<or> (\<exists>e. nats_connect w (nats_trace S @ [Import_nats]) (NATS_URL S) = Inl e))
      \<longrightarrow> fst (ensure_connected w S) = None \<and> nc (snd (ensure_connected w S)) = None"
    by (auto simp: ensure_connected_def SyncNats_init_def split: option.splits sum.splits)
  have retry: "nc S = None
      \<longrightarrow> (\<exists>tr. nats_trace (snd (safe_publish P w S subject payload))
                  = nats_trace S @ Import_nats # tr)"
    using safe_publish_disconnected_trace by blast
  have ok: "nc S = None \<and> import_nats w (nats_trace S) = None
        \<and> nats_connect w (nats_trace S @ [Import_nats]) (NATS_URL S) = Inr h
      \<longrightarrow> fst (ensure_connected w S) = Some h \<and> nc (snd (ensure_connected w S)) = Some h"
    by (simp add: ensure_connected_connects)
  have memo: "nc S = Some h \<longrightarrow> ensure_connected w S = (Some h, S)"
    by (simp add: ensure_connected_memo)
  have keep: "nc S = Some h
      \<longrightarrow> nc (snd (safe_publish P w S subject payload)) = Some h
        \<and> (nats_trace (snd (safe_publish P w S subject payload)) =
              nats_trace S @
                [Publish h subject
                   (envelope P (uuid4 w (nats_trace S)) (gmtime w (nats_trace S)) subject payload)]
           \<or> nats_trace (snd (safe_publish P w S subject payload)) =
              nats_trace S @
                [Publish h subject
                   (envelope P (uuid4 w (nats_trace S)) (gmtime w (nats_trace S)) subject payload),
                 Flush h])"
    using SyncNats_publish_trace
            [of w "nats_trace S" h subject
                "envelope P (uuid4 w (nats_trace S)) (gmtime w (nats_trace S)) subject payload"]
    by (auto simp: safe_publish_connected)
  have cl: "nc (snd (close w S)) = None"
    by (rule close_clears)
  have noop: "nc S = None \<longrightarrow> close w S = (None, S)"
    by (simp add: close_never_connected)
  from fail retry ok memo keep cl noop show ?thesis by blast
qed

text \<open>
  The claim C2 states that a failure during an operation on a connected handle discards the
  handle, so that the next publish reconnects. On the connected bridge \<open>S_connected\<close> with a
  broker that fails the publish, the handle is still 7 after the failed publish, and the
  second publish neither imports nor connects.
\<close>

theorem failed_publish_keeps_handle:
  "nats_publish w_publish_fails (nats_trace S_connected) 7 ''llama.benchmark.cell.v1''
     (envelope py0 (uuid4 w_publish_fails []) (gmtime w_publish_fails [])
        ''llama.benchmark.cell.v1'' (PDict [])) = Some OSError
   \<and> nc (snd (safe_publish py0 w_publish_fails S_connected ''llama.benchmark.cell.v1'' (PDict [])))
       \<noteq> None
   \<and> Import_nats \<notin> set (nats_trace (snd (safe_publish py0 w_publish_fails
         (snd (safe_publish py0 w_publish_fails S_connected ''llama.benchmark.cell.v1'' (PDict [])))
         ''llama.benchmark.cell.v1'' (PDict []))))
   \<and> Connect ''nats://localhost:4222'' \<notin> set (nats_trace (snd (safe_publish py0 w_publish_fails
         (snd (safe_publish py0 w_publish_fails S_connected ''llama.benchmark.cell.v1'' (PDict [])))
         ''llama.benchmark.cell.v1'' (PDict []))))"
  by (simp add: safe_publish_def ensure_connected_def SyncNats_publish_def Let_def
        w_publish_fails_def S_connected_def S_new_def)

theorem handle_state_machine_witness:
  "nc S_new = None
   \<and> nats_connect w_unreachable (nats_trace S_new @ [Import_nats]) (NATS_URL S_new) = Inl OSError
   \<and> fst (ensure_connected w_unreachable S_new) = None
   \<and> nc (snd (ensure_connected w_unreachable S_new)) = None
   \<and> import_nats w_publish_fails (nats_trace S_new) = None
   \<and> nats_connect w_publish_fails (nats_trace S_new @ [Import_nats]) (NATS_URL S_new) = Inr 7
   \<and> fst (ensure_connected w_publish_fails S_new) = Some 7
   \<and> nc (snd (ensure_connected w_publish_fails S_new)) = Some 7
   \<and> nc S_connected = Some 7
   \<and> ensure_connected w_publish_fails S_connected = (Some 7, S_connected)
   \<and> nc (snd (safe_publish py0 w_publish_fails S_connected ''t'' PNone)) = Some 7
   \<and> nc (snd (close w_publish_fails S_connected)) = None
   \<and> close w_publish_fails S_new = (None, S_new)"
proof -
  have pre1: "nc S_new = None"
    and pre2: "nats_connect w_unreachable (nats_trace S_new @ [Import_nats]) (NATS_URL S_new)
                 = Inl OSError"
    and pre3: "import_nats w_publish_fails (nats_trace S_new) = None"
    and pre4: "nats_connect w_publish_fails (nats_trace S_new @ [Import_nats]) (NATS_URL S_new)
                 = Inr 7"
    and pre5: "nc S_connected = Some 7"
    by (simp_all add: S_new_def S_connected_def w_unreachable_def w_publish_fails_def)
  from handle_state_machine [of S_new w_unreachable py0 "''t''" PNone 7] pre1 pre2
  have a: "fst (ensure_connected w_unreachable S_new) = None"
    and b: "nc (snd (ensure_connected w_unreachable S_new)) = None"
    by blast+
  from handle_state_machine [of S_new w_publish_fails py0 "''t''" PNone 7] pre1 pre3 pre4
  have c: "fst (ensure_connected w_publish_fails S_new) = Some 7"
    and d: "nc (snd (ensure_connected w_publish_fails S_new)) = Some 7"
    and g: "close w_publish_fails S_new = (None, S_new)"
    by blast+
  from handle_state_machine [of S_connected w_publish_fails py0 "''t''" PNone 7] pre5
  have e: "ensure_connected w_publish_fails S_connected = (Some 7, S_connected)"
    and f: "nc (snd (safe_publish py0 w_publish_fails S_connected ''t'' PNone)) = Some 7"
    and h: "nc (snd (close w_publish_fails S_connected)) = None"
    by blast+
  from pre1 pre2 pre3 pre4 pre5 a b c d e f g h show ?thesis by blast
qed

lemma map_of_fold_update:
  "distinct (map fst row) \<Longrightarrow>
     map_of (fold (\<lambda>(k, v) acc. AList.update k v acc) row d) = map_of d ++ map_of row"
proof (induction row arbitrary: d)
  case Nil
  then show ?case by simp
next
  case (Cons kv row)
  obtain k v where kv: "kv = (k, v)" by (cases kv)
  from Cons.prems kv have fresh: "k \<notin> dom (map_of row)" and dist: "distinct (map fst row)"
    by (auto simp: dom_map_of_conv_image_fst)
  have "map_of (fold (\<lambda>(k, v) acc. AList.update k v acc) (kv # row) d)
          = map_of (AList.update k v d) ++ map_of row"
    using Cons.IH [OF dist] kv by simp
  also have "\<dots> = (map_of d)(k \<mapsto> v) ++ map_of row"
    by (simp add: update_conv')
  also have "\<dots> = map_of d ++ map_of (kv # row)"
  proof (rule ext)
    fix x
    show "((map_of d)(k \<mapsto> v) ++ map_of row) x = (map_of d ++ map_of (kv # row)) x"
      using fresh kv by (auto simp: map_add_def split: option.splits)
  qed
  finally show ?case .
qed

lemma map_of_dict_update_all:
  "distinct (map fst row) \<Longrightarrow> map_of (dict_update_all d row) = map_of d ++ map_of row"
  by (simp add: dict_update_all_def map_of_fold_update)

text \<open>
  C10. For every row (a dictionary: its keys are distinct), the payload that \<^verbatim>\<open>publish_cell\<close>
  hands to the transport is the row merged over the field \<^verbatim>\<open>sweep_type\<close>: its \<^verbatim>\<open>sweep_type\<close>
  is the argument when the row has no such key and the row's own value when it has one, and
  every other field of the row appears with the row's value (and no other field appears).
  On a connected bridge the message published on \<^verbatim>\<open>llama.benchmark.cell.v1\<close> is the envelope of
  that payload.
\<close>

theorem publish_cell_payload:
  assumes "distinct (map fst row)"
  shows "publish_cell P w S sweep_type row =
           safe_publish P w S ''llama.benchmark.cell.v1''
             (PDict (dict_update_all [(''sweep_type'', PStr sweep_type)] row))
   \<and> (map_of row ''sweep_type'' = None \<longrightarrow>
        map_of (dict_update_all [(''sweep_type'', PStr sweep_type)] row) ''sweep_type''
          = Some (PStr sweep_type))
   \<and> (\<forall>v. map_of row ''sweep_type'' = Some v \<longrightarrow>
        map_of (dict_update_all [(''sweep_type'', PStr sweep_type)] row) ''sweep_type'' = Some v)
   \<and> (\<forall>k. k \<noteq> ''sweep_type'' \<longrightarrow>
        map_of (dict_update_all [(''sweep_type'', PStr sweep_type)] row) k = map_of row k)
   \<and> (\<forall>h. nc S = Some h \<longrightarrow>
        nats_trace (snd (publish_cell P w S sweep_type row)) ! length (nats_trace S) =
          Publish h ''llama.benchmark.cell.v1''
            (envelope P (uuid4 w (nats_trace S)) (gmtime w (nats_trace S))
               ''llama.benchmark.cell.v1''
               (PDict (dict_update_all [(''sweep_type'', PStr sweep_type)] row))))"
proof -
  let ?payload = "dict_update_all [(''sweep_type'', PStr sweep_type)] row"
  have m: "map_of ?payload = map_of [(''sweep_type'', PStr sweep_type)] ++ map_of row"
    using assms by (rule map_of_dict_update_all)
  have unfolded: "publish_cell P w S sweep_type row =
           safe_publish P w S ''llama.benchmark.cell.v1'' (PDict ?payload)"
    by (simp add: publish_cell_def)
  have absent: "map_of row ''sweep_type'' = None \<longrightarrow>
        map_of ?payload ''sweep_type'' = Some (PStr sweep_type)"
    by (simp add: m map_add_def)
  have present: "\<forall>v. map_of row ''sweep_type'' = Some v \<longrightarrow> map_of ?payload ''sweep_type'' = Some v"
    by (simp add: m map_add_def)
  have others: "\<forall>k. k \<noteq> ''sweep_type'' \<longrightarrow> map_of ?payload k = map_of row k"
    by (auto simp: m map_add_def split: option.splits)
  have sent: "\<forall>h. nc S = Some h \<longrightarrow>
        nats_trace (snd (publish_cell P w S sweep_type row)) ! length (nats_trace S) =
          Publish h ''llama.benchmark.cell.v1''
            (envelope P (uuid4 w (nats_trace S)) (gmtime w (nats_trace S))
               ''llama.benchmark.cell.v1'' (PDict ?payload))"
  proof (intro allI impI)
    fix h
    assume h: "nc S = Some h"
    let ?msg = "envelope P (uuid4 w (nats_trace S)) (gmtime w (nats_trace S))
                  ''llama.benchmark.cell.v1'' (PDict ?payload)"
    from SyncNats_publish_trace [of w "nats_trace S" h "''llama.benchmark.cell.v1''" ?msg]
    have "snd (SyncNats_publish w (nats_trace S) h ''llama.benchmark.cell.v1'' ?msg)
            ! length (nats_trace S) = Publish h ''llama.benchmark.cell.v1'' ?msg"
      by (auto simp: nth_append)
    with h show "nats_trace (snd (publish_cell P w S sweep_type row)) ! length (nats_trace S) =
          Publish h ''llama.benchmark.cell.v1'' ?msg"
      by (simp add: unfolded safe_publish_connected(2))
  qed
  from unfolded absent present others sent show ?thesis by blast
qed

theorem publish_cell_payload_witness:
  "distinct (map fst [(''tps'', PInt 3), (''sweep_type'', PStr ''row-value'')])
   \<and> distinct (map fst [(''tps'', PInt 3)])
   \<and> map_of [(''tps'', PInt 3)] ''sweep_type'' = None
   \<and> map_of (dict_update_all [(''sweep_type'', PStr ''threads'')] [(''tps'', PInt 3)]) ''sweep_type''
       = Some (PStr ''threads'')
   \<and> map_of [(''tps'', PInt 3), (''sweep_type'', PStr ''row-value'')] ''sweep_type''
       = Some (PStr ''row-value'')
   \<and> map_of (dict_update_all [(''sweep_type'', PStr ''threads'')]
               [(''tps'', PInt 3), (''sweep_type'', PStr ''row-value'')]) ''sweep_type''
       = Some (PStr ''row-value'')
   \<and> map_of (dict_update_all [(''sweep_type'', PStr ''threads'')]
               [(''tps'', PInt 3), (''sweep_type'', PStr ''row-value'')]) ''tps''
       = Some (PInt 3)"
proof -
  have d1: "distinct (map fst [(''tps'', PInt 3), (''sweep_type'', PStr ''row-value'')])"
    and d2: "distinct (map fst [(''tps'', PInt 3)])"
    by simp_all
  have l1: "map_of [(''tps'', PInt 3)] ''sweep_type'' = None"
    and l2: "map_of [(''tps'', PInt 3), (''sweep_type'', PStr ''row-value'')] ''sweep_type''
               = Some (PStr ''row-value'')"
    and l3: "map_of [(''tps'', PInt 3), (''sweep_type'', PStr ''row-value'')] ''tps''
               = Some (PInt 3)"
    and ne: "''tps'' \<noteq> ''sweep_type''"
    by simp_all
  from publish_cell_payload [OF d2, of py0 w_publish_fails S_new "''threads''"] l1
  have a: "map_of (dict_update_all [(''sweep_type'', PStr ''threads'')] [(''tps'', PInt 3)])
             ''sweep_type'' = Some (PStr ''threads'')"
    by blast
  from publish_cell_payload [OF d1, of py0 w_publish_fails S_new "''threads''"] l2
  have b: "map_of (dict_update_all [(''sweep_type'', PStr ''threads'')]
               [(''tps'', PInt 3), (''sweep_type'', PStr ''row-value'')]) ''sweep_type''
       = Some (PStr ''row-value'')"
    by blast
  from publish_cell_payload [OF d1, of py0 w_publish_fails S_new "''threads''"] l3 ne
  have c: "map_of (dict_update_all [(''sweep_type'', PStr ''threads'')]
               [(''tps'', PInt 3), (''sweep_type'', PStr ''row-value'')]) ''tps''
       = Some (PInt 3)"
    by metis
  from d1 d2 l1 l2 a b c show ?thesis by blast
qed

section \<open>The envelope\<close>

text \<open>
  C3. For every topic, every payload that JSON represents as itself, every identifier and
  every UTC time of the clock, decoding the bytes of the envelope yields a document whose
  \<^verbatim>\<open>payload\<close> field is the payload unchanged, whose \<^verbatim>\<open>topic\<close> field is the topic, whose
  \<^verbatim>\<open>version\<close> is \<^verbatim>\<open>v1\<close>, whose \<^verbatim>\<open>source\<close> is \<^verbatim>\<open>llama-throughput-lab\<close>, whose \<^verbatim>\<open>id\<close> is the
  identifier drawn, and whose \<^verbatim>\<open>ts\<close> field parses as a UTC ISO-8601 time with a literal \<^verbatim>\<open>Z\<close>
  suffix, namely as the time read from the clock.
\<close>

theorem envelope_roundtrip:
  assumes "json_native (float_repr P) (float_of_str P) payload" and "valid_utc now"
  shows "\<exists>doc. json_loads (float_of_str P) (envelope P uid now topic payload) = Inr doc
           \<and> py_get doc ''payload'' = Inr payload
           \<and> py_get doc ''topic'' = Inr (PStr topic)
           \<and> py_get doc ''version'' = Inr (PStr ''v1'')
           \<and> py_get doc ''source'' = Inr (PStr ''llama-throughput-lab'')
           \<and> py_get doc ''id'' = Inr (PStr uid)
           \<and> (\<exists>ts. py_get doc ''ts'' = Inr (PStr ts)
                  \<and> parse_iso8601_z ts = Some now \<and> last ts = CHR ''Z'')"
proof -
  let ?doc = "PDict [(''id'', PStr uid), (''topic'', PStr topic), (''ts'', PStr (strftime_iso_z now)),
                     (''version'', PStr ''v1''), (''source'', PStr ''llama-throughput-lab''),
                     (''payload'', payload)]"
  have native: "json_native (float_repr P) (float_of_str P) ?doc"
    using assms(1) by simp
  have decoded: "json_loads (float_of_str P) (envelope P uid now topic payload) = Inr ?doc"
    unfolding envelope_def by (rule json_loads_dumps [OF native])
  have ts: "parse_iso8601_z (strftime_iso_z now) = Some now"
    using assms(2) by (rule parse_strftime)
  have z: "last (strftime_iso_z now) = CHR ''Z''"
    by (simp add: strftime_iso_z_def)
  have fields: "py_get ?doc ''payload'' = Inr payload"
      "py_get ?doc ''topic'' = Inr (PStr topic)"
      "py_get ?doc ''version'' = Inr (PStr ''v1'')"
      "py_get ?doc ''source'' = Inr (PStr ''llama-throughput-lab'')"
      "py_get ?doc ''id'' = Inr (PStr uid)"
      "py_get ?doc ''ts'' = Inr (PStr (strftime_iso_z now))"
    by (simp_all add: dict_get_def)
  from decoded fields ts z show ?thesis by blast
qed

lemma payload0_native: "json_native (float_repr py0) (float_of_str py0) payload0"
  by (simp add: payload0_def py0_def scan_number_def scan_int_part_def scan_frac_def scan_exp_def
        is_digit_def)

lemma t0_valid: "valid_utc t0"
  by (simp add: valid_utc_def t0_def)

theorem envelope_roundtrip_witness:
  "json_native (float_repr py0) (float_of_str py0) payload0 \<and> valid_utc t0
   \<and> (\<exists>doc. json_loads (float_of_str py0)
                (envelope py0 ''3f2b8c1e-5d4a-4e6f-9a7b-0c1d2e3f4a5b'' t0
                   ''llama.benchmark.cell.v1'' payload0) = Inr doc
           \<and> py_get doc ''payload'' = Inr payload0
           \<and> py_get doc ''topic'' = Inr (PStr ''llama.benchmark.cell.v1'')
           \<and> py_get doc ''version'' = Inr (PStr ''v1'')
           \<and> py_get doc ''source'' = Inr (PStr ''llama-throughput-lab'')
           \<and> py_get doc ''id'' = Inr (PStr ''3f2b8c1e-5d4a-4e6f-9a7b-0c1d2e3f4a5b'')
           \<and> (\<exists>ts. py_get doc ''ts'' = Inr (PStr ts)
                  \<and> parse_iso8601_z ts = Some t0 \<and> last ts = CHR ''Z''))"
  using payload0_native t0_valid
    envelope_roundtrip [OF payload0_native t0_valid,
      of "''3f2b8c1e-5d4a-4e6f-9a7b-0c1d2e3f4a5b''" "''llama.benchmark.cell.v1''"]
  by blast

text \<open>The timestamp of the example and the bytes of a small envelope, computed.\<close>

lemma strftime_example: "strftime_iso_z t0 = ''2026-11-04T09:05:00Z''"
  by (simp add: strftime_iso_z_def t0_def pad2_def str_nat.simps digit_char_def)

lemma envelope_example:
  "envelope py0 ''id-1'' t0 ''t'' (PDict [(''n'', PInt (- 3)), (''x'', PFloat (85 / 2))]) =
     ''{\"id\": \"id-1\", \"topic\": \"t\", \"ts\": \"2026-11-04T09:05:00Z\", \"version\": \"v1\", \"source\": \"llama-throughput-lab\", \"payload\": {\"n\": -3, \"x\": 42.5}}''"
  by (simp add: envelope_def strftime_example encode_utf8_def encode_basestring_ascii_def
        escape_char_def dquote_def bslash_def py0_def str_int_def str_nat.simps digit_char_def
        Let_def)

section \<open>Properties of the CHIT bridge\<close>

text \<open>
  C8. If the presign shared secret is unset (empty), \<^verbatim>\<open>archive_csv_to_minio\<close> returns \<^verbatim>\<open>None\<close>
  at once, for every path, bucket and object key: the trace is the one it started with, so
  no request was sent and no file was opened.
\<close>

theorem archive_without_secret:
  "PRESIGN_SECRET cfg = [] \<Longrightarrow>
     archive_csv_to_minio cfg P w tr csv_path bucket object_key = (Inr PNone, tr)"
  by (simp add: archive_csv_to_minio_def)

theorem archive_without_secret_witness:
  "PRESIGN_SECRET cfg_no_secret = []
   \<and> archive_csv_to_minio cfg_no_secret py0 w_stub [] ''/tmp/run.csv'' ''outputs'' None
       = (Inr PNone, [])"
proof -
  have pre: "PRESIGN_SECRET cfg_no_secret = []"
    by (simp add: cfg_no_secret_def)
  from archive_without_secret [OF pre, of py0 w_stub "[]" "''/tmp/run.csv''" "''outputs''" None] pre
  show ?thesis by simp
qed



lemma urlencode_stub:
  "urlencode [(''bucket'', ''outputs''), (''key'', ''llama-throughput-lab/'' @ basename ''/tmp/run.csv''),
              (''method'', m)] =
     ''bucket=outputs&key=llama-throughput-lab%2Frun.csv&method='' @ quote_plus m"
  by (simp add: quote_plus_def encode_utf8_def always_safe_def upper_hex_digit_def Let_def
        basename_def)

lemma quote_plus_PUT_GET: "quote_plus ''PUT'' = ''PUT''" "quote_plus ''GET'' = ''GET''"
  by (simp_all add: quote_plus_def encode_utf8_def always_safe_def Let_def)









text \<open>The record of the example, in full: the summary line reads
  \<^verbatim>\<open>Model llama.gguf achieves 42.5 tok/s at batch=8\<close>.\<close>

lemma store_reasoning_example_content:
  "''Model '' @ basename ''/models/llama.gguf'' @ '' achieves '' @ ''42.5'' @ '' tok/s at ''
     @ join_comma (map (\<lambda>(k, v). k @ ''='' @ py_str py0 v) (filter (\<lambda>(k, v). k \<noteq> ''throughput'') best0))
   = ''Model llama.gguf achieves 42.5 tok/s at batch=8''"
  by (simp add: basename_def best0_def str_int_def str_nat.simps digit_char_def)


lemma json_loads_html: "json_loads fos ''<html>502</html>'' = Inl JSONDecodeError"
  by (simp add: json_loads_def skip_ws_def is_ws_def dquote_def bslash_def scan_number_def
        scan_int_part_def is_digit_def)

text \<open>
  C1 on \<^verbatim>\<open>archive_csv_to_minio\<close>: the gateway answers the first presign request with a body
  that is not JSON. \<^verbatim>\<open>json.loads\<close> raises \<^verbatim>\<open>JSONDecodeError\<close>, which the handler
  \<^verbatim>\<open>except (URLError, OSError)\<close> does not catch: the exception reaches the caller. On the
  same answer \<^verbatim>\<open>_post_json\<close>, whose handler names \<^verbatim>\<open>json.JSONDecodeError\<close>, returns \<^verbatim>\<open>None\<close>.
\<close>

theorem archive_raises_on_non_json_response:
  "archive_csv_to_minio cfg_secret py0 w_not_json [] ''/tmp/run.csv'' ''outputs'' None
     = (Inl JSONDecodeError, [Http stub_presign_PUT])"
proof -
  have req: "presign_request cfg_secret ''outputs''
               (''llama-throughput-lab/'' @ basename ''/tmp/run.csv'') ''PUT'' = stub_presign_PUT"
    unfolding presign_request_def urlencode_stub quote_plus_PUT_GET
    by (simp add: stub_presign_PUT_def cfg_secret_def cfg_no_secret_def)
  have "presign cfg_secret py0 w_not_json [] ''outputs''
          (''llama-throughput-lab/'' @ basename ''/tmp/run.csv'') ''PUT''
        = (Inl JSONDecodeError, [Http stub_presign_PUT])"
    unfolding presign_def req Let_def
    by (simp add: w_not_json_def json_loads_html)
  then have "archive_steps cfg_secret py0 w_not_json [] ''/tmp/run.csv'' ''outputs''
          (''llama-throughput-lab/'' @ basename ''/tmp/run.csv'')
        = (Inl JSONDecodeError, [Http stub_presign_PUT])"
    by (simp add: archive_steps_def)
  then show ?thesis
    by (simp add: archive_csv_to_minio_def cfg_secret_def cfg_no_secret_def Let_def)
qed

lemma post_json_swallows_non_json:
  "fst (post_json py0 w_not_json [] url payload 10) = Inr PNone"
  by (simp add: post_json_def Let_def w_not_json_def json_loads_html)

text \<open>On the failures its handler names, \<^verbatim>\<open>archive_csv_to_minio\<close> does return \<^verbatim>\<open>None\<close>: an
  exception of the \<^verbatim>\<open>OSError\<close> family from any step never reaches the caller.\<close>

lemma archive_catches_OSError:
  "fst (archive_csv_to_minio cfg P w tr csv_path bucket object_key) = Inl e \<Longrightarrow> \<not> is_OSError e"
  by (auto simp: archive_csv_to_minio_def Let_def split: if_splits prod.splits sum.splits)

lemma post_json_catches:
  "fst (post_json P w tr url payload timeout) = Inl e \<Longrightarrow> \<not> is_OSError e \<and> e \<noteq> JSONDecodeError"
  by (auto simp: post_json_def Let_def split: if_splits sum.splits)

end
